theory Spec2Isabelle
  imports Main
begin

section \<open>Values handled by the script\<close>

text \<open>
  The script \<^verbatim>\<open>gumloop-fever-sync.py\<close> works on the values that \<^verbatim>\<open>response.json()\<close>
  hands back: \<^verbatim>\<open>None\<close>, booleans, integers, strings, lists and dicts with string keys.
  A Python string is modelled as the list of its code points, each below 256, so every
  model string denotes a real Python string. Numbers are Python's unbounded integers;
  fractional numbers are left out, since their text form is the floating-point one.
  A dict is an association list in insertion order; a lookup takes the first entry of a
  key (the keys of a Python dict are distinct).
\<close>

datatype json =
    JNull
  | JBool bool
  | JInt int
  | JStr string
  | JArr "json list"
  | JObj "(string \<times> json) list"

text \<open>The exceptions the modelled statements can raise.\<close>

datatype exn =
    AttributeError
  | TypeError
  | ValueError
  | KeyError
  | NameError
  | RequestError

subsection \<open>Python built-ins used by the script\<close>

text \<open>\<^verbatim>\<open>isinstance(x, dict)\<close>.\<close>

fun isinstance_dict :: "json \<Rightarrow> bool" where
  "isinstance_dict (JObj kvs) = True"
| "isinstance_dict v = False"

text \<open>
  \<^verbatim>\<open>x.get(k, default)\<close>: only a dict has the method; every other value raises
  \<^verbatim>\<open>AttributeError\<close>. \<^verbatim>\<open>x.get(k)\<close> is the same with the default \<^verbatim>\<open>None\<close>.
\<close>

fun py_get_default :: "json \<Rightarrow> string \<Rightarrow> json \<Rightarrow> exn + json" where
  "py_get_default (JObj kvs) k d = Inr (case map_of kvs k of None \<Rightarrow> d | Some v \<Rightarrow> v)"
| "py_get_default v k d = Inl AttributeError"

definition py_get :: "json \<Rightarrow> string \<Rightarrow> exn + json" where
  "py_get x k = py_get_default x k JNull"

text \<open>Truth value of a value in a condition (\<^verbatim>\<open>if x\<close>, \<^verbatim>\<open>x or y\<close>).\<close>

fun py_truthy :: "json \<Rightarrow> bool" where
  "py_truthy JNull = False"
| "py_truthy (JBool b) = b"
| "py_truthy (JInt n) = (n \<noteq> 0)"
| "py_truthy (JStr s) = (s \<noteq> [])"
| "py_truthy (JArr xs) = (xs \<noteq> [])"
| "py_truthy (JObj kvs) = (kvs \<noteq> [])"

text \<open>
  Iteration (\<^verbatim>\<open>for x in v\<close>, \<^verbatim>\<open>list += v\<close>): a list yields its elements, a dict its
  keys, a string its characters; the other values are not iterable.
\<close>

fun py_iter :: "json \<Rightarrow> exn + json list" where
  "py_iter (JArr xs) = Inr xs"
| "py_iter (JObj kvs) = Inr (map (\<lambda>kv. JStr (fst kv)) kvs)"
| "py_iter (JStr s) = Inr (map (\<lambda>c. JStr [c]) s)"
| "py_iter v = Inl TypeError"

text \<open>Decimal text of an integer, as \<^verbatim>\<open>str\<close> and \<^verbatim>\<open>json.dumps\<close> print it.\<close>

fun digit_char :: "nat \<Rightarrow> char" where
  "digit_char n = char_of (48 + n mod 10)"

fun nat_digits :: "nat \<Rightarrow> string" where
  "nat_digits n = (if n < 10 then [digit_char n] else nat_digits (n div 10) @ [digit_char n])"

definition int_digits :: "int \<Rightarrow> string" where
  "int_digits i = (if i < 0 then CHR ''-'' # nat_digits (nat (- i)) else nat_digits (nat i))"

text \<open>Two lower-case hexadecimal digits of a code point, for the escapes below.\<close>

definition hex_char :: "nat \<Rightarrow> char" where
  "hex_char n = (if n mod 16 < 10 then char_of (48 + n mod 16) else char_of (87 + n mod 16))"

definition hex2 :: "char \<Rightarrow> string" where
  "hex2 c = [hex_char (of_char c div 16), hex_char (of_char c)]"

text \<open>\<^verbatim>\<open>", ".join(parts)\<close> and the like.\<close>

fun join :: "string \<Rightarrow> string list \<Rightarrow> string" where
  "join sep [] = []"
| "join sep [x] = x"
| "join sep (x # y # ys) = x @ sep @ join sep (y # ys)"

text \<open>
  \<^verbatim>\<open>repr\<close> of a string: quoted with \<^verbatim>\<open>'\<close> unless the text has a \<^verbatim>\<open>'\<close> and no \<^verbatim>\<open>"\<close>;
  the quote and the backslash are escaped, tab, newline and carriage return are written
  \<^verbatim>\<open>\t \n \r\<close>, and any other code point that is not printable is written \<^verbatim>\<open>\xNN\<close>.
  Below 256 the printable code points are 0x20 to 0x7E and 0xA1 to 0xFF without 0xAD.
\<close>

definition py_isprintable :: "char \<Rightarrow> bool" where
  "py_isprintable c =
     (let n = (of_char c :: nat)
      in (32 \<le> n \<and> n \<le> 126) \<or> (161 \<le> n \<and> n \<noteq> 173))"

definition repr_char :: "char \<Rightarrow> char \<Rightarrow> string" where
  "repr_char q c =
     (if c = q \<or> c = CHR 0x5C then [CHR 0x5C, c]
      else if c = CHR 0x09 then [CHR 0x5C, CHR ''t'']
      else if c = CHR 0x0A then [CHR 0x5C, CHR ''n'']
      else if c = CHR 0x0D then [CHR 0x5C, CHR ''r'']
      else if \<not> py_isprintable c then [CHR 0x5C, CHR ''x''] @ hex2 c
      else [c])"

definition repr_str :: "string \<Rightarrow> string" where
  "repr_str s =
     (let q = (if CHR 0x27 \<in> set s \<and> CHR 0x22 \<notin> set s then CHR 0x22 else CHR 0x27)
      in [q] @ concat (map (repr_char q) s) @ [q])"

text \<open>\<^verbatim>\<open>repr\<close> of a value; inside a list or a dict \<^verbatim>\<open>str\<close> prints the elements with it.\<close>

fun py_repr :: "json \<Rightarrow> string" where
  "py_repr JNull = ''None''"
| "py_repr (JBool b) = (if b then ''True'' else ''False'')"
| "py_repr (JInt n) = int_digits n"
| "py_repr (JStr s) = repr_str s"
| "py_repr (JArr xs) = ''['' @ join '', '' (map py_repr xs) @ '']''"
| "py_repr (JObj kvs) =
     ''{'' @ join '', '' (map (\<lambda>kv. repr_str (fst kv) @ '': '' @ py_repr (snd kv)) kvs) @ ''}''"

text \<open>\<^verbatim>\<open>str(x)\<close>: a string is itself, every other value prints as its \<^verbatim>\<open>repr\<close>.\<close>

fun py_str :: "json \<Rightarrow> string" where
  "py_str (JStr s) = s"
| "py_str v = py_repr v"

section \<open>The nested getter\<close>

text \<open>
  Lines 49 to 55:
  \<^verbatim>\<open>
  def _g(d, *ks):
      cur = d
      for k in ks:
          if not isinstance(cur, dict):
              return ""
          cur = cur.get(k)
      return "" if cur in (None, "") else str(cur)
  \<close>
  The call \<^verbatim>\<open>cur.get(k)\<close> is the one statement that could raise; the result type keeps
  that branch.
\<close>

fun safe_g :: "json \<Rightarrow> string list \<Rightarrow> exn + string" where
  "safe_g cur [] = Inr (if cur = JNull \<or> cur = JStr [] then [] else py_str cur)"
| "safe_g cur (k # ks) =
     (if \<not> isinstance_dict cur then Inr []
      else (case py_get cur k of
              Inl e \<Rightarrow> Inl e
            | Inr v \<Rightarrow> safe_g v ks))"

text \<open>
  The value the walk ends on, following the words of the specification: \<open>None\<close> when
  some intermediate value is not a keyed structure, the value under the last key
  otherwise (\<^verbatim>\<open>None\<close> standing for an absent key).
\<close>

fun walk :: "json \<Rightarrow> string list \<Rightarrow> json option" where
  "walk cur [] = Some cur"
| "walk (JObj kvs) (k # ks) = walk (case map_of kvs k of None \<Rightarrow> JNull | Some v \<Rightarrow> v) ks"
| "walk v (k # ks) = None"

section \<open>Text helpers\<close>

text \<open>
  \<^verbatim>\<open>str.strip()\<close>: below 256 the white-space code points are 0x09 to 0x0D, 0x1C to
  0x20, 0x85 and 0xA0.
\<close>

definition py_isspace :: "char \<Rightarrow> bool" where
  "py_isspace c =
     (let n = (of_char c :: nat)
      in (9 \<le> n \<and> n \<le> 13) \<or> (28 \<le> n \<and> n \<le> 32) \<or> n = 133 \<or> n = 160)"

definition py_strip :: "string \<Rightarrow> string" where
  "py_strip s = rev (dropWhile py_isspace (rev (dropWhile py_isspace s)))"

text \<open>
  \<^verbatim>\<open>str.isdigit()\<close>: a non-empty text of digit characters. Below 256 these are
  \<^verbatim>\<open>0\<close> to \<^verbatim>\<open>9\<close> and the superscripts 0xB2, 0xB3 and 0xB9, which \<^verbatim>\<open>int()\<close> refuses.
\<close>

definition is_ascii_digit :: "char \<Rightarrow> bool" where
  "is_ascii_digit c = (48 \<le> (of_char c :: nat) \<and> (of_char c :: nat) \<le> 57)"

definition py_isdigit_char :: "char \<Rightarrow> bool" where
  "py_isdigit_char c =
     (is_ascii_digit c \<or> (of_char c :: nat) = 178 \<or> (of_char c :: nat) = 179
        \<or> (of_char c :: nat) = 185)"

definition py_isdigit :: "string \<Rightarrow> bool" where
  "py_isdigit s = (s \<noteq> [] \<and> list_all py_isdigit_char s)"

text \<open>\<^verbatim>\<open>s.split(sep)\<close> for a one-character separator.\<close>

fun py_split :: "char \<Rightarrow> string \<Rightarrow> string list" where
  "py_split sep [] = [[]]"
| "py_split sep (c # cs) =
     (if c = sep then [] # py_split sep cs
      else (case py_split sep cs of
              [] \<Rightarrow> [[c]]
            | w # ws \<Rightarrow> (c # w) # ws))"

text \<open>
  \<^verbatim>\<open>int(s)\<close> for a string, base ten: blanks around, one optional sign, then decimal
  digits where a single underscore may stand between two digits. Anything else raises
  \<^verbatim>\<open>ValueError\<close>. The blanks \<^verbatim>\<open>int()\<close> skips are fewer than those of
  \<^verbatim>\<open>str.strip()\<close>: 0x09 to 0x0D, 0x20, 0x85 and 0xA0, not 0x1C to 0x1F. (The
  interpreter's optional cap on the number of digits is not part of the language and is
  left out.)
\<close>

definition int_isspace :: "char \<Rightarrow> bool" where
  "int_isspace c =
     (let n = (of_char c :: nat)
      in (9 \<le> n \<and> n \<le> 13) \<or> n = 32 \<or> n = 133 \<or> n = 160)"

definition int_strip :: "string \<Rightarrow> string" where
  "int_strip s = rev (dropWhile int_isspace (rev (dropWhile int_isspace s)))"

definition digit_val :: "char \<Rightarrow> nat" where
  "digit_val c = of_char c - 48"

fun digits_acc :: "nat \<Rightarrow> string \<Rightarrow> nat option" where
  "digits_acc acc [] = Some acc"
| "digits_acc acc [c] = (if is_ascii_digit c then Some (acc * 10 + digit_val c) else None)"
| "digits_acc acc (c # d # ds) =
     (if is_ascii_digit c then digits_acc (acc * 10 + digit_val c) (d # ds)
      else if c = CHR ''_'' \<and> is_ascii_digit d then digits_acc (acc * 10 + digit_val d) ds
      else None)"

definition parse_digits :: "string \<Rightarrow> nat option" where
  "parse_digits s =
     (case s of
        [] \<Rightarrow> None
      | c # cs \<Rightarrow> if is_ascii_digit c then digits_acc (digit_val c) cs else None)"

definition py_int_str :: "string \<Rightarrow> exn + int" where
  "py_int_str s =
     (let t = int_strip s;
          neg = (t \<noteq> [] \<and> hd t = CHR ''-'');
          body = (if t \<noteq> [] \<and> (hd t = CHR ''-'' \<or> hd t = CHR ''+'') then tl t else t)
      in case parse_digits body of
           None \<Rightarrow> Inl ValueError
         | Some n \<Rightarrow> Inr (if neg then - int n else int n))"

text \<open>\<^verbatim>\<open>int(x)\<close> for a value: \<^verbatim>\<open>None\<close>, lists and dicts raise \<^verbatim>\<open>TypeError\<close>.\<close>

fun py_int :: "json \<Rightarrow> exn + int" where
  "py_int (JInt n) = Inr n"
| "py_int (JBool b) = Inr (if b then 1 else 0)"
| "py_int (JStr s) = py_int_str s"
| "py_int v = Inl TypeError"

text \<open>A comprehension \<^verbatim>\<open>[f(x) for x in xs]\<close> whose \<open>f\<close> may raise: the first error ends it.\<close>

fun map_raise :: "('a \<Rightarrow> exn + 'b) \<Rightarrow> 'a list \<Rightarrow> exn + 'b list" where
  "map_raise f [] = Inr []"
| "map_raise f (x # xs) =
     (case f x of
        Inl e \<Rightarrow> Inl e
      | Inr y \<Rightarrow> (case map_raise f xs of Inl e \<Rightarrow> Inl e | Inr ys \<Rightarrow> Inr (y # ys)))"

text \<open>
  \<^verbatim>\<open>json.dumps(x)\<close> with its defaults: the separators are \<^verbatim>\<open>", "\<close> and \<^verbatim>\<open>": "\<close>, and
  inside a string the quote, the backslash and every code point outside 0x20 to 0x7E
  are escaped.
\<close>

definition json_escape_char :: "char \<Rightarrow> string" where
  "json_escape_char c =
     (if c = CHR 0x22 then [CHR 0x5C, CHR 0x22]
      else if c = CHR 0x5C then [CHR 0x5C, CHR 0x5C]
      else if c = CHR 0x0A then [CHR 0x5C, CHR ''n'']
      else if c = CHR 0x0D then [CHR 0x5C, CHR ''r'']
      else if c = CHR 0x09 then [CHR 0x5C, CHR ''t'']
      else if c = CHR 0x08 then [CHR 0x5C, CHR ''b'']
      else if c = CHR 0x0C then [CHR 0x5C, CHR ''f'']
      else if (of_char c :: nat) < 32 \<or> 126 < (of_char c :: nat)
        then [CHR 0x5C, CHR ''u'', CHR ''0'', CHR ''0''] @ hex2 c
      else [c])"

definition json_str :: "string \<Rightarrow> string" where
  "json_str s = [CHR 0x22] @ concat (map json_escape_char s) @ [CHR 0x22]"

fun py_json_dumps :: "json \<Rightarrow> string" where
  "py_json_dumps JNull = ''null''"
| "py_json_dumps (JBool b) = (if b then ''true'' else ''false'')"
| "py_json_dumps (JInt n) = int_digits n"
| "py_json_dumps (JStr s) = json_str s"
| "py_json_dumps (JArr xs) = ''['' @ join '', '' (map py_json_dumps xs) @ '']''"
| "py_json_dumps (JObj kvs) =
     ''{'' @ join '', '' (map (\<lambda>kv. json_str (fst kv) @ '': '' @ py_json_dumps (snd kv)) kvs) @ ''}''"

section \<open>The output columns\<close>

text \<open>Lines 58 to 78: the column names, and one empty list per name.\<close>

definition variable_names :: "string list" where
  "variable_names =
     [''order_id'', ''parent_order_id'', ''order_created_date_utc'',
      ''order_updated_date_utc'', ''surcharge'', ''currency'', ''purchase_channel'',
      ''payment_method'', ''billing_zip_code'', ''assigned_seats'', ''buyer_id'',
      ''buyer_email'', ''buyer_first_name'', ''buyer_last_name'',
      ''buyer_date_of_birthday'', ''buyer_language'', ''buyer_marketing_preference'',
      ''purchase_city'', ''purchase_country_code'', ''purchase_region_code'',
      ''purchase_postal_code'', ''purchase_quality'', ''partner_id'', ''partner_name'',
      ''plan_id'', ''plan_name'', ''coupon_name'', ''coupon_code'', ''business_id'',
      ''business_name'', ''booking_questions'', ''item_id'', ''item_status'',
      ''item_created_date_utc'', ''item_modified_date_utc'', ''item_purchase_date_utc'',
      ''item_cancellation_date_utc'', ''item_cancellation_type'', ''item_discount'',
      ''item_surcharge'', ''item_unitary_price'', ''item_is_invite'',
      ''item_rating_value'', ''item_rating_comment'', ''owner_id'', ''owner_email'',
      ''owner_first_name'', ''owner_last_name'', ''owner_date_of_birthday'',
      ''owner_language'', ''owner_marketing_preference'', ''plan_code_id'',
      ''plan_code_barcode'', ''plan_code_created_date_utc'',
      ''plan_code_modified_date_utc'', ''plan_code_redeemed_date_utc'',
      ''plan_code_is_cancelled'', ''plan_code_is_validated'', ''session_id'',
      ''session_name'', ''session_start_date_utc'', ''session_end_date_utc'',
      ''session_first_purchasable_date_utc'', ''session_is_addon'',
      ''session_is_shop_product'', ''session_is_wait_list'', ''venue_name'',
      ''venue_city'', ''venue_country'', ''venue_timezone'']"

type_synonym outputs = "string \<rightharpoonup> string list"

definition empty_outputs :: outputs where
  "empty_outputs = map_of (map (\<lambda>k. (k, [])) variable_names)"

text \<open>
  Lines 81 to 103 and again 291 to 311: the lists are read from \<^verbatim>\<open>outputs\<close> in the order
  of \<^verbatim>\<open>variable_names\<close> (a missing key raises \<^verbatim>\<open>KeyError\<close>), unpacked into one
  local variable per target (a wrong count raises \<^verbatim>\<open>ValueError\<close>), and the returned
  tuple reads the locals it names (an unassigned one raises \<^verbatim>\<open>NameError\<close>). In the
  source both the targets and the returned names are the sequence of
  \<^verbatim>\<open>variable_names\<close> again.
\<close>

definition unpack_targets :: "string list" where
  "unpack_targets = variable_names"

definition return_names :: "string list" where
  "return_names = variable_names"

definition unpack_and_return :: "outputs \<Rightarrow> exn + string list list" where
  "unpack_and_return outs =
     (case those (map outs variable_names) of
        None \<Rightarrow> Inl KeyError
      | Some vals \<Rightarrow>
          if length vals \<noteq> length unpack_targets then Inl ValueError
          else (case those (map (map_of (zip unpack_targets vals)) return_names) of
                  None \<Rightarrow> Inl NameError
                | Some tuple \<Rightarrow> Inr tuple))"

section \<open>Flattening orders into rows\<close>

text \<open>
  Lines 191 to 285 are one statement per column,
  \<^verbatim>\<open>outputs[name].append(_g(o, ...))\<close> or \<^verbatim>\<open>outputs[name].append(_g(it, ...))\<close>,
  in the order below; only \<^verbatim>\<open>booking_questions\<close> is computed otherwise (lines 235, 236).
\<close>

datatype cell_src =
    OfOrder "string list"
  | OfItem "string list"
  | BookingQuestions

definition row_plan :: "(string \<times> cell_src) list" where
  "row_plan =
     [(''order_id'', OfOrder [''id'']),
      (''parent_order_id'', OfOrder [''parent_order_id'']),
      (''order_created_date_utc'', OfOrder [''created_date_utc'']),
      (''order_updated_date_utc'', OfOrder [''updated_date_utc'']),
      (''surcharge'', OfOrder [''surcharge'']),
      (''currency'', OfOrder [''currency'']),
      (''purchase_channel'', OfOrder [''purchase_channel'']),
      (''payment_method'', OfOrder [''payment_method'']),
      (''billing_zip_code'', OfOrder [''billing_zip_code'']),
      (''assigned_seats'', OfOrder [''assigned_seats'']),
      (''buyer_id'', OfOrder [''buyer'', ''id'']),
      (''buyer_email'', OfOrder [''buyer'', ''email'']),
      (''buyer_first_name'', OfOrder [''buyer'', ''first_name'']),
      (''buyer_last_name'', OfOrder [''buyer'', ''last_name'']),
      (''buyer_date_of_birthday'', OfOrder [''buyer'', ''date_of_birthday'']),
      (''buyer_language'', OfOrder [''buyer'', ''language'']),
      (''buyer_marketing_preference'', OfOrder [''buyer'', ''marketing_preference'']),
      (''purchase_city'', OfOrder [''purchase_location_source'', ''city_name'']),
      (''purchase_country_code'', OfOrder [''purchase_location_source'', ''country_code'']),
      (''purchase_region_code'', OfOrder [''purchase_location_source'', ''region_code'']),
      (''purchase_postal_code'', OfOrder [''purchase_location_source'', ''postal_code'']),
      (''purchase_quality'', OfOrder [''purchase_location_source'', ''quality'']),
      (''partner_id'', OfOrder [''partner'', ''id'']),
      (''partner_name'', OfOrder [''partner'', ''name'']),
      (''plan_id'', OfOrder [''plan'', ''id'']),
      (''plan_name'', OfOrder [''plan'', ''name'']),
      (''coupon_name'', OfOrder [''coupon'', ''name'']),
      (''coupon_code'', OfOrder [''coupon'', ''code'']),
      (''business_id'', OfOrder [''business'', ''id'']),
      (''business_name'', OfOrder [''business'', ''name'']),
      (''booking_questions'', BookingQuestions),
      (''item_id'', OfItem [''id'']),
      (''item_status'', OfItem [''status'']),
      (''item_created_date_utc'', OfItem [''created_date_utc'']),
      (''item_modified_date_utc'', OfItem [''modified_date_utc'']),
      (''item_purchase_date_utc'', OfItem [''purchase_date_utc'']),
      (''item_cancellation_date_utc'', OfItem [''cancellation_date_utc'']),
      (''item_cancellation_type'', OfItem [''cancellation_type'']),
      (''item_discount'', OfItem [''discount'']),
      (''item_surcharge'', OfItem [''surcharge'']),
      (''item_unitary_price'', OfItem [''unitary_price'']),
      (''item_is_invite'', OfItem [''is_invite'']),
      (''item_rating_value'', OfItem [''rating_value'']),
      (''item_rating_comment'', OfItem [''rating_comment'']),
      (''owner_id'', OfItem [''owner'', ''id'']),
      (''owner_email'', OfItem [''owner'', ''email'']),
      (''owner_first_name'', OfItem [''owner'', ''first_name'']),
      (''owner_last_name'', OfItem [''owner'', ''last_name'']),
      (''owner_date_of_birthday'', OfItem [''owner'', ''date_of_birthday'']),
      (''owner_language'', OfItem [''owner'', ''language'']),
      (''owner_marketing_preference'', OfItem [''owner'', ''marketing_preference'']),
      (''plan_code_id'', OfItem [''plan_code'', ''id'']),
      (''plan_code_barcode'', OfItem [''plan_code'', ''cd_barcode'']),
      (''plan_code_created_date_utc'', OfItem [''plan_code'', ''created_date_utc'']),
      (''plan_code_modified_date_utc'', OfItem [''plan_code'', ''modified_date_utc'']),
      (''plan_code_redeemed_date_utc'', OfItem [''plan_code'', ''redeemed_date_utc'']),
      (''plan_code_is_cancelled'', OfItem [''plan_code'', ''is_cancelled'']),
      (''plan_code_is_validated'', OfItem [''plan_code'', ''is_validated'']),
      (''session_id'', OfItem [''session'', ''id'']),
      (''session_name'', OfItem [''session'', ''name'']),
      (''session_start_date_utc'', OfItem [''session'', ''start_date_utc'']),
      (''session_end_date_utc'', OfItem [''session'', ''end_date_utc'']),
      (''session_first_purchasable_date_utc'', OfItem [''session'', ''first_purchasable_date_utc'']),
      (''session_is_addon'', OfItem [''session'', ''is_addon'']),
      (''session_is_shop_product'', OfItem [''session'', ''is_shop_product'']),
      (''session_is_wait_list'', OfItem [''session'', ''is_wait_list'']),
      (''venue_name'', OfItem [''session'', ''venue'', ''name'']),
      (''venue_city'', OfItem [''session'', ''venue'', ''city'']),
      (''venue_country'', OfItem [''session'', ''venue'', ''country'']),
      (''venue_timezone'', OfItem [''session'', ''venue'', ''timezone''])]"

text \<open>
  The value appended by one statement. Lines 235 and 236:
  \<^verbatim>\<open>
  bq = o.get("booking_questions")
  outputs["booking_questions"].append(_json.dumps(bq) if bq not in (None, "") else "")
  \<close>
\<close>

fun cell_value :: "json \<Rightarrow> json \<Rightarrow> cell_src \<Rightarrow> exn + string" where
  "cell_value ord it (OfOrder ks) = safe_g ord ks"
| "cell_value ord it (OfItem ks) = safe_g it ks"
| "cell_value ord it BookingQuestions =
     (case py_get ord ''booking_questions'' of
        Inl e \<Rightarrow> Inl e
      | Inr bq \<Rightarrow> Inr (if bq \<noteq> JNull \<and> bq \<noteq> JStr [] then py_json_dumps bq else []))"

text \<open>
  The statements of one row, run in order. \<^verbatim>\<open>outputs[name]\<close> is looked up first, then
  the value is computed, then it is appended. An exception leaves the loop at once, with
  the cells appended so far still in \<^verbatim>\<open>outputs\<close>: nothing is rolled back. The
  evaluator of the cells is a parameter, so that this can be said of any statement that
  raises; the script's evaluator is \<open>cell_value\<close>.
\<close>

fun run_cells ::
  "(cell_src \<Rightarrow> exn + string) \<Rightarrow> outputs \<Rightarrow> (string \<times> cell_src) list \<Rightarrow> exn option \<times> outputs" where
  "run_cells ev outs [] = (None, outs)"
| "run_cells ev outs ((name, src) # rest) =
     (case outs name of
        None \<Rightarrow> (Some KeyError, outs)
      | Some col \<Rightarrow>
          (case ev src of
             Inl e \<Rightarrow> (Some e, outs)
           | Inr v \<Rightarrow> run_cells ev (outs(name \<mapsto> col @ [v])) rest))"

text \<open>Line 189: \<^verbatim>\<open>for it in items\<close>.\<close>

fun flatten_items :: "outputs \<Rightarrow> json \<Rightarrow> json list \<Rightarrow> exn option \<times> outputs" where
  "flatten_items outs ord [] = (None, outs)"
| "flatten_items outs ord (it # its) =
     (case run_cells (cell_value ord it) outs row_plan of
        (Some e, outs') \<Rightarrow> (Some e, outs')
      | (None, outs') \<Rightarrow> flatten_items outs' ord its)"

text \<open>
  Lines 187 and 188: \<^verbatim>\<open>for o in orders: items = o.get("order_items") or [{}]\<close>.
  The result is the exception that ended the loop, if any, and \<^verbatim>\<open>outputs\<close> as the
  loop left it.
\<close>

definition order_items :: "json \<Rightarrow> exn + json list" where
  "order_items ord =
     (case py_get ord ''order_items'' of
        Inl e \<Rightarrow> Inl e
      | Inr v \<Rightarrow> py_iter (if py_truthy v then v else JArr [JObj []]))"

fun flatten_orders :: "outputs \<Rightarrow> json list \<Rightarrow> exn option \<times> outputs" where
  "flatten_orders outs [] = (None, outs)"
| "flatten_orders outs (ord # rest) =
     (case order_items ord of
        Inl e \<Rightarrow> (Some e, outs)
      | Inr items \<Rightarrow>
          (case flatten_items outs ord items of
             (Some e, outs') \<Rightarrow> (Some e, outs')
           | (None, outs') \<Rightarrow> flatten_orders outs' rest))"

section \<open>The run\<close>

text \<open>
  Lines 34 to 41 fix the configuration as constants of \<^verbatim>\<open>main\<close>. The model takes it as
  a record, so that the stages can be stated for any filter; \<open>source_config\<close> holds the
  values of the source (the credentials of lines 35 and 36 are parameters and are not
  written here).
\<close>

record config =
  host :: string
  username :: string
  password :: string
  bearer :: string
  plan_ids :: string
  date_field :: string
  date_from :: string
  date_to :: string

definition source_config :: "string \<Rightarrow> string \<Rightarrow> config" where
  "source_config user pass =
     \<lparr> host = ''data-reporting-api.prod.feverup.com'',
       username = user,
       password = pass,
       bearer = [],
       plan_ids = ''420002,474974,416569,480359,474902,433336'',
       date_field = [],
       date_from = [],
       date_to = [] \<rparr>"

text \<open>
  What the network answers. Each field is the outcome of one request up to and including
  \<^verbatim>\<open>.json()\<close>: a parsed body, or the exception raised on the way (connection error,
  timeout, \<^verbatim>\<open>raise_for_status\<close>, a body that is not JSON).
\<close>

record env =
  auth_reply :: "exn + json"
  search_reply :: "exn + json"
  poll_reply :: "nat \<Rightarrow> exn + json"
  page_reply :: "int \<Rightarrow> exn + json"

text \<open>
  What the run does to the outside, in order: requests with their address, payload and
  timeout in seconds, pauses, and log lines. A log line that ends with the text of an
  exception is cut after its fixed part, and the ellipsis that ends the first message
  of line 110 is left out.
\<close>

datatype event =
    PostForm string "(string \<times> string) list" nat
  | PostJson string json nat
  | GetUrl string "(string \<times> json) list" nat
  | Sleep nat
  | LogInfo string
  | LogError string

text \<open>A stage either makes \<^verbatim>\<open>main\<close> return the table as it is, or hands on a value.\<close>

datatype 'a stage = Stop | Next 'a

text \<open>
  \<^verbatim>\<open>except Exception as e: log.error(...); return _unpack_and_return()\<close> around the body
  of a stage.
\<close>

definition guarded :: "string \<Rightarrow> event list \<times> (exn + 'a stage) \<Rightarrow> event list \<times> 'a stage" where
  "guarded msg r =
     (case snd r of
        Inl e \<Rightarrow> (fst r @ [LogError msg], Stop)
      | Inr s \<Rightarrow> (fst r, s))"

subsection \<open>Auth, lines 106 to 125\<close>

definition auth_url :: "config \<Rightarrow> string" where
  "auth_url cfg = ''https://'' @ host cfg @ ''/v1/auth/token''"

definition auth_body :: "config \<Rightarrow> env \<Rightarrow> event list \<times> (exn + json stage)" where
  "auth_body cfg env =
     (let token = py_strip (if bearer cfg \<noteq> [] then bearer cfg else [])
      in if token \<noteq> [] then ([], Inr (Next (JStr token)))
         else
           (let ev = [LogInfo ''Logging in for token'',
                      PostForm (auth_url cfg)
                        [(''username'', username cfg), (''password'', password cfg)] 30]
            in case auth_reply env of
                 Inl e \<Rightarrow> (ev, Inl e)
               | Inr r \<Rightarrow>
                   (case py_get_default r ''access_token'' (JStr []) of
                      Inl e \<Rightarrow> (ev, Inl e)
                    | Inr tok \<Rightarrow>
                        if \<not> py_truthy tok
                        then (ev @ [LogError ''Auth failed (no token)''], Inr Stop)
                        else (ev, Inr (Next tok)))))"

definition auth_stage :: "config \<Rightarrow> env \<Rightarrow> event list \<times> json stage" where
  "auth_stage cfg env = guarded ''Auth error: '' (auth_body cfg env)"

subsection \<open>Start of the search, lines 128 to 148\<close>

text \<open>Line 129: \<^verbatim>\<open>[int(x) for x in PLAN_IDS.split(",") if x.strip().isdigit()]\<close>.\<close>

definition kept_plan_ids :: "config \<Rightarrow> string list" where
  "kept_plan_ids cfg = filter (\<lambda>x. py_isdigit (py_strip x)) (py_split CHR '','' (plan_ids cfg))"

definition parse_plan_ids :: "config \<Rightarrow> exn + int list" where
  "parse_plan_ids cfg = map_raise py_int_str (kept_plan_ids cfg)"

text \<open>Lines 134 to 137: the body, with the optional keys added when their value is not empty.\<close>

definition search_body :: "config \<Rightarrow> int list \<Rightarrow> json" where
  "search_body cfg ids =
     JObj ([(''plan_ids'', JArr (map JInt ids))]
           @ (if date_field cfg \<noteq> [] then [(''date_field'', JStr (date_field cfg))] else [])
           @ (if date_from cfg \<noteq> [] then [(''date_from'', JStr (date_from cfg))] else [])
           @ (if date_to cfg \<noteq> [] then [(''date_to'', JStr (date_to cfg))] else []))"

definition search_url :: "config \<Rightarrow> string" where
  "search_url cfg = ''https://'' @ host cfg @ ''/v1/reports/order-items/search''"

definition search_try :: "config \<Rightarrow> env \<Rightarrow> event list \<times> (exn + json stage)" where
  "search_try cfg env =
     (case parse_plan_ids cfg of
        Inl e \<Rightarrow> ([], Inl e)
      | Inr ids \<Rightarrow>
          if ids = [] then ([LogError ''No valid plan IDs after parsing''], Inr Stop)
          else
            (let ev = [PostJson (search_url cfg) (search_body cfg ids) 60]
             in case search_reply env of
                  Inl e \<Rightarrow> (ev, Inl e)
                | Inr r \<Rightarrow>
                    (case py_get r ''search_id'' of
                       Inl e \<Rightarrow> (ev, Inl e)
                     | Inr sid \<Rightarrow>
                         if \<not> py_truthy sid
                         then (ev @ [LogError ''No search_id in response''], Inr Stop)
                         else (ev @ [LogInfo (''Search ID: '' @ py_str sid)], Inr (Next sid)))))"

definition search_stage :: "config \<Rightarrow> env \<Rightarrow> event list \<times> json stage" where
  "search_stage cfg env = guarded ''Search init error: '' (search_try cfg env)"

subsection \<open>Polling, lines 151 to 172\<close>

text \<open>
  Lines 158 to 164, for a \<^verbatim>\<open>partition_info\<close> that passed \<^verbatim>\<open>if pinfo\<close>:
  \<^verbatim>\<open>
  parts = []
  for p in pinfo:
      if isinstance(p, dict):
          parts.append(int(p.get("partition_num", p.get("partition",
                               p.get("page", p.get("number", 0))))))
      else:
          parts.append(int(p))
  parts = sorted(set([p for p in parts if p >= 0])) or [0]
  \<close>
  The nested defaults are evaluated innermost first; on a dict none of them raises.
\<close>

definition partition_value :: "json \<Rightarrow> exn + json" where
  "partition_value p =
     (case py_get_default p ''number'' (JInt 0) of
        Inl e \<Rightarrow> Inl e
      | Inr d3 \<Rightarrow>
          (case py_get_default p ''page'' d3 of
             Inl e \<Rightarrow> Inl e
           | Inr d2 \<Rightarrow>
               (case py_get_default p ''partition'' d2 of
                  Inl e \<Rightarrow> Inl e
                | Inr d1 \<Rightarrow> py_get_default p ''partition_num'' d1)))"

definition partition_number :: "json \<Rightarrow> exn + int" where
  "partition_number p =
     (if isinstance_dict p
      then (case partition_value p of Inl e \<Rightarrow> Inl e | Inr v \<Rightarrow> py_int v)
      else py_int p)"

definition sorted_set :: "int list \<Rightarrow> int list" where
  "sorted_set ns = sort (remdups ns)"

definition resolve_partitions :: "json \<Rightarrow> exn + int list" where
  "resolve_partitions pinfo =
     (case py_iter pinfo of
        Inl e \<Rightarrow> Inl e
      | Inr ps \<Rightarrow>
          (case map_raise partition_number ps of
             Inl e \<Rightarrow> Inl e
           | Inr ns \<Rightarrow>
               (let r = sorted_set (filter (\<lambda>n. 0 \<le> n) ns)
                in Inr (if r \<noteq> [] then r else [0]))))"

definition poll_url :: "config \<Rightarrow> json \<Rightarrow> string" where
  "poll_url cfg sid = ''https://'' @ host cfg @ ''/v1/reports/order-items/search/'' @ py_str sid"

text \<open>
  Lines 154 to 166. \<open>poll_loop env url i n\<close> runs the attempts \<open>i\<close>, \<open>i + 1\<close>, ... while
  \<open>n\<close> of the 60 are left; \<open>None\<close> is \<^verbatim>\<open>parts\<close> still \<^verbatim>\<open>None\<close> when the loop runs out.
\<close>

fun poll_loop :: "env \<Rightarrow> string \<Rightarrow> nat \<Rightarrow> nat \<Rightarrow> event list \<times> (exn + int list option)" where
  "poll_loop env url i 0 = ([], Inr None)"
| "poll_loop env url i (Suc n) =
     (let ev = [GetUrl url [] 30]
      in case poll_reply env i of
           Inl e \<Rightarrow> (ev, Inl e)
         | Inr j \<Rightarrow>
             (case py_get j ''partition_info'' of
                Inl e \<Rightarrow> (ev, Inl e)
              | Inr pinfo \<Rightarrow>
                  if py_truthy pinfo
                  then (case resolve_partitions pinfo of
                          Inl e \<Rightarrow> (ev, Inl e)
                        | Inr parts \<Rightarrow> (ev, Inr (Some parts)))
                  else (case poll_loop env url (Suc i) n of
                          (ev', r) \<Rightarrow> (ev @ [Sleep 2] @ ev', r))))"

definition poll_try :: "config \<Rightarrow> env \<Rightarrow> json \<Rightarrow> event list \<times> (exn + int list stage)" where
  "poll_try cfg env sid =
     (case poll_loop env (poll_url cfg sid) 0 60 of
        (ev, Inl e) \<Rightarrow> (ev, Inl e)
      | (ev, Inr None) \<Rightarrow> (ev @ [LogError ''Timeout waiting for results''], Inr Stop)
      | (ev, Inr (Some parts)) \<Rightarrow>
          if parts = [] then (ev @ [LogError ''Timeout waiting for results''], Inr Stop)
          else (ev, Inr (Next parts)))"

definition poll_stage :: "config \<Rightarrow> env \<Rightarrow> json \<Rightarrow> event list \<times> int list stage" where
  "poll_stage cfg env sid = guarded ''Polling error: '' (poll_try cfg env sid)"

subsection \<open>Fetching the partitions, lines 175 to 183\<close>

fun fetch_loop :: "env \<Rightarrow> string \<Rightarrow> int list \<Rightarrow> json list \<Rightarrow> event list \<times> (exn + json list)" where
  "fetch_loop env url [] orders = ([], Inr orders)"
| "fetch_loop env url (p # ps) orders =
     (let ev = [GetUrl url [(''page'', JInt p)] 60]
      in case page_reply env p of
           Inl e \<Rightarrow> (ev, Inl e)
         | Inr r \<Rightarrow>
             (case py_get_default r ''data'' (JArr []) of
                Inl e \<Rightarrow> (ev, Inl e)
              | Inr data \<Rightarrow>
                  (case py_iter data of
                     Inl e \<Rightarrow> (ev, Inl e)
                   | Inr xs \<Rightarrow>
                       (case fetch_loop env url ps (orders @ xs) of
                          (ev', r') \<Rightarrow> (ev @ ev', r')))))"

definition fetch_try :: "config \<Rightarrow> env \<Rightarrow> json \<Rightarrow> int list \<Rightarrow> event list \<times> (exn + json list stage)" where
  "fetch_try cfg env sid parts =
     (case fetch_loop env (poll_url cfg sid) parts [] of
        (ev, Inl e) \<Rightarrow> (ev, Inl e)
      | (ev, Inr orders) \<Rightarrow>
          (ev @ [LogInfo (''Fetched '' @ nat_digits (length orders)
                            @ '' orders (pre item-expansion)'')],
           Inr (Next orders)))"

definition fetch_stage :: "config \<Rightarrow> env \<Rightarrow> json \<Rightarrow> int list \<Rightarrow> event list \<times> json list stage" where
  "fetch_stage cfg env sid parts = guarded ''Partition fetch error: '' (fetch_try cfg env sid parts)"

subsection \<open>The flatten stage, lines 186 to 288, and \<^verbatim>\<open>main\<close>\<close>

text \<open>
  The \<^verbatim>\<open>try\<close> is around the whole loop: an exception is logged and the run goes on to
  the final unpack with \<^verbatim>\<open>outputs\<close> as the loop left it.
\<close>

definition flatten_stage :: "json list \<Rightarrow> event list \<times> outputs" where
  "flatten_stage orders =
     (case flatten_orders empty_outputs orders of
        (Some e, outs) \<Rightarrow> ([LogError ''Flatten error: ''], outs)
      | (None, outs) \<Rightarrow> ([], outs))"

text \<open>
  \<^verbatim>\<open>main\<close>: the events of the run, and the returned tuple of column lists or the
  exception that escaped.
\<close>

definition main :: "config \<Rightarrow> env \<Rightarrow> event list \<times> (exn + string list list)" where
  "main cfg env =
     (case auth_stage cfg env of
        (ev1, Stop) \<Rightarrow> (ev1, unpack_and_return empty_outputs)
      | (ev1, Next token) \<Rightarrow>
          (case search_stage cfg env of
             (ev2, Stop) \<Rightarrow> (ev1 @ ev2, unpack_and_return empty_outputs)
           | (ev2, Next sid) \<Rightarrow>
               (case poll_stage cfg env sid of
                  (ev3, Stop) \<Rightarrow> (ev1 @ ev2 @ ev3, unpack_and_return empty_outputs)
                | (ev3, Next parts) \<Rightarrow>
                    (case fetch_stage cfg env sid parts of
                       (ev4, Stop) \<Rightarrow> (ev1 @ ev2 @ ev3 @ ev4, unpack_and_return empty_outputs)
                     | (ev4, Next orders) \<Rightarrow>
                         (case flatten_stage orders of
                            (ev5, outs) \<Rightarrow>
                              (ev1 @ ev2 @ ev3 @ ev4 @ ev5, unpack_and_return outs))))))"

section \<open>Notions used to state the properties\<close>

text \<open>
  \<^verbatim>\<open>outputs\<close> after the statements of a plan have all run: each named column has one
  more cell, the value of its statement.
\<close>

definition cell_of :: "(cell_src \<Rightarrow> exn + string) \<Rightarrow> cell_src \<Rightarrow> string" where
  "cell_of ev src = (case ev src of Inl e \<Rightarrow> [] | Inr v \<Rightarrow> v)"

definition appended ::
  "(cell_src \<Rightarrow> exn + string) \<Rightarrow> outputs \<Rightarrow> (string \<times> cell_src) list \<Rightarrow> outputs" where
  "appended ev outs plan =
     (\<lambda>c. case map_of plan c of
             None \<Rightarrow> outs c
           | Some src \<Rightarrow> map_option (\<lambda>col. col @ [cell_of ev src]) (outs c))"

text \<open>
  An order as the data model of the specification has it: a keyed structure whose
  \<^verbatim>\<open>order_items\<close> is absent, null or a list. Its items are the elements of that list.
\<close>

definition order_wf :: "json \<Rightarrow> bool" where
  "order_wf ord =
     (case ord of
        JObj kvs \<Rightarrow>
          (case map_of kvs ''order_items'' of
             None \<Rightarrow> True
           | Some JNull \<Rightarrow> True
           | Some (JArr xs) \<Rightarrow> True
           | Some v \<Rightarrow> False)
      | v \<Rightarrow> False)"

definition items_of :: "json \<Rightarrow> json list" where
  "items_of ord =
     (case ord of
        JObj kvs \<Rightarrow> (case map_of kvs ''order_items'' of Some (JArr xs) \<Rightarrow> xs | v \<Rightarrow> [])
      | v \<Rightarrow> [])"

text \<open>The table \<^verbatim>\<open>main\<close> returns after flattening the given orders.\<close>

definition flatten_table :: "json list \<Rightarrow> exn + string list list" where
  "flatten_table orders = unpack_and_return (snd (flatten_stage orders))"

text \<open>The number of cells of each column of a returned table.\<close>

definition column_lengths :: "exn + string list list \<Rightarrow> nat list option" where
  "column_lengths r = (case r of Inl e \<Rightarrow> None | Inr tbl \<Rightarrow> Some (map length tbl))"

text \<open>Every column is there and holds \<open>n\<close> cells.\<close>

definition aligned :: "outputs \<Rightarrow> nat \<Rightarrow> bool" where
  "aligned outs n = list_all (\<lambda>c. map_option length (outs c) = Some n) variable_names"

section \<open>Sample inputs\<close>

text \<open>
  Four orders: one with two items, one without \<^verbatim>\<open>order_items\<close>, one with an empty list
  and one with \<^verbatim>\<open>order_items: null\<close>.
\<close>

definition sample_orders :: "json list" where
  "sample_orders =
     [JObj [(''id'', JStr ''A''), (''order_items'', JArr [JObj [(''id'', JInt 1)], JObj []])],
      JObj [(''id'', JStr ''B'')],
      JObj [(''id'', JStr ''C''), (''order_items'', JArr [])],
      JObj [(''order_items'', JNull)]]"

text \<open>
  An order whose \<^verbatim>\<open>order_items\<close> is the number 5: \<^verbatim>\<open>for it in items\<close> raises
  \<^verbatim>\<open>TypeError\<close> on it. \<open>orders_bad_middle\<close> has it between two good orders.
\<close>

definition bad_order :: json where
  "bad_order = JObj [(''id'', JStr ''B''), (''order_items'', JInt 5)]"

definition orders_bad_middle :: "json list" where
  "orders_bad_middle = [JObj [(''id'', JStr ''A'')], bad_order, JObj [(''id'', JStr ''C'')]]"

text \<open>An order with the booking questions of the scenario, and one with an empty list.\<close>

definition order_with_questions :: "(string \<times> json) list" where
  "order_with_questions = [(''booking_questions'', JArr [JObj [(''q'', JStr ''age'')]])]"

definition order_with_no_questions :: "(string \<times> json) list" where
  "order_with_no_questions = [(''booking_questions'', JArr [])]"

text \<open>An evaluator of cells that raises on the booking questions, and nowhere else.\<close>

definition raising_ev :: "cell_src \<Rightarrow> exn + string" where
  "raising_ev src = (if src = BookingQuestions then Inl TypeError else Inr [])"

section \<open>Notions used to state the properties of the polling stage\<close>

text \<open>
  The number of a partition entry in the words of the specification: a raw integer is
  taken as it is; a keyed entry is read from the first present of the four keys, in this
  order, and is 0 when none is present. Other entries have no number.
\<close>

definition partition_keys :: "string list" where
  "partition_keys = [''partition_num'', ''partition'', ''page'', ''number'']"

fun first_present :: "(string \<times> json) list \<Rightarrow> string list \<Rightarrow> json option" where
  "first_present kvs [] = None"
| "first_present kvs (k # ks) =
     (case map_of kvs k of
        Some v \<Rightarrow> Some v
      | None \<Rightarrow> first_present kvs ks)"

fun entry_number :: "json \<Rightarrow> int option" where
  "entry_number (JInt n) = Some n"
| "entry_number (JObj kvs) =
     (case first_present kvs partition_keys of
        None \<Rightarrow> Some 0
      | Some (JInt n) \<Rightarrow> Some n
      | Some v \<Rightarrow> None)"
| "entry_number v = None"

text \<open>
  The reply of a poll attempt that observes no \<^verbatim>\<open>partition_info\<close>: a keyed body whose
  \<^verbatim>\<open>partition_info\<close> is absent or empty. \<open>quiet_until env k\<close>: the attempts before the
  \<open>k\<close>-th are all of this kind.
\<close>

definition nothing_yet :: "exn + json \<Rightarrow> bool" where
  "nothing_yet r =
     (case r of
        Inl e \<Rightarrow> False
      | Inr j \<Rightarrow> (case py_get j ''partition_info'' of
                    Inl e \<Rightarrow> False
                  | Inr pinfo \<Rightarrow> \<not> py_truthy pinfo))"

definition quiet_until :: "env \<Rightarrow> nat \<Rightarrow> bool" where
  "quiet_until env k = list_all (\<lambda>i. nothing_yet (poll_reply env i)) [0..<k]"

text \<open>The events of \<open>k\<close> attempts that observed nothing, each followed by its pause.\<close>

definition quiet_polls :: "string \<Rightarrow> nat \<Rightarrow> event list" where
  "quiet_polls url k = concat (replicate k [GetUrl url [] 30, Sleep 2])"

text \<open>A request for a partition: a \<^verbatim>\<open>GET\<close> with query parameters.\<close>

fun is_page_fetch :: "event \<Rightarrow> bool" where
  "is_page_fetch (GetUrl url params t) = (params \<noteq> [])"
| "is_page_fetch ev = False"

text \<open>The partition entries of the scenario, and replies of the poll address.\<close>

definition sample_partition_info :: "json list" where
  "sample_partition_info =
     [JObj [(''page'', JInt 2)], JObj [(''partition_num'', JInt 0)], JInt 5, JInt 0]"

definition mixed_entry :: "(string \<times> json) list" where
  "mixed_entry = [(''partition_num'', JInt 1), (''page'', JNull)]"

definition env_polling :: "json \<Rightarrow> env" where
  "env_polling pinfo =
     \<lparr> auth_reply = Inr (JObj [(''access_token'', JStr ''t'')]),
       search_reply = Inr (JObj [(''search_id'', JStr ''s1'')]),
       poll_reply = (\<lambda>i. Inr (JObj [(''partition_info'', pinfo)])),
       page_reply = (\<lambda>p. Inr (JObj [(''data'', JArr [])])) \<rparr>"

text \<open>Runs in which one request fails: the token request, the search, a partition.\<close>

definition env_auth_down :: env where
  "env_auth_down = (env_polling JNull) \<lparr> auth_reply := Inl RequestError \<rparr>"

definition env_search_down :: env where
  "env_search_down = (env_polling JNull) \<lparr> search_reply := Inl RequestError \<rparr>"

definition env_fetch_down :: env where
  "env_fetch_down = (env_polling (JArr [JInt 0])) \<lparr> page_reply := (\<lambda>p. Inl RequestError) \<rparr>"

text \<open>A keyed entry whose partition number is null.\<close>

definition null_entry :: "(string \<times> json) list" where
  "null_entry = [(''partition_num'', JNull)]"

text \<open>
  A text of ASCII code points without the four separator controls 0x1C to 0x1F, which
  \<^verbatim>\<open>str.strip()\<close> removes and \<^verbatim>\<open>int()\<close> refuses.
\<close>

definition plain_char :: "char \<Rightarrow> bool" where
  "plain_char c = ((of_char c :: nat) < 128 \<and> \<not> (28 \<le> (of_char c :: nat) \<and> (of_char c :: nat) \<le> 31))"

definition plain_ascii :: "string \<Rightarrow> bool" where
  "plain_ascii s = list_all plain_char s"

text \<open>
  Variants of the configuration: no entry of the plan identifiers is a number; two of the
  three date values are set. And a run whose search reply has no \<^verbatim>\<open>search_id\<close>.
\<close>

definition config_no_ids :: config where
  "config_no_ids = (source_config [] []) \<lparr> plan_ids := ''abc, ,12a,-5'' \<rparr>"

definition config_dates :: config where
  "config_dates =
     (source_config [] []) \<lparr> date_field := ''CREATED_DATE_UTC'', date_from := ''2024-01-01'' \<rparr>"

definition env_no_search_id :: env where
  "env_no_search_id = (env_polling JNull) \<lparr> search_reply := Inr (JObj []) \<rparr>"

section \<open>Properties of the nested getter\<close>

lemma safe_g_walk:
  "safe_g d ks =
     Inr (case walk d ks of
            None \<Rightarrow> []
          | Some v \<Rightarrow> if v = JNull \<or> v = JStr [] then [] else py_str v)"
proof (induction ks arbitrary: d)
  case Nil
  show ?case by simp
next
  case (Cons k ks)
  show ?case
  proof (cases d)
    case (JObj kvs)
    then show ?thesis using Cons.IH by (simp add: py_get_def)
  qed simp_all
qed

text \<open>
  C2. For every root value and every key path the getter returns a string and never
  raises: the empty string when an intermediate value is not a keyed structure or the
  final value is absent, null or the empty string, and the \<^verbatim>\<open>str\<close> of the final value
  otherwise.
\<close>

theorem safe_g_total:
  "\<exists>s. safe_g d ks = Inr s \<and>
     s = (case walk d ks of
            None \<Rightarrow> []
          | Some v \<Rightarrow> if v = JNull \<or> v = JStr [] then [] else py_str v)"
  by (simp add: safe_g_walk)

theorem safe_g_total_witness:
  "\<exists>s. safe_g (JObj [(''buyer'', JInt 7), (''id'', JInt 12)]) [''buyer'', ''id''] = Inr s \<and>
     s = (case walk (JObj [(''buyer'', JInt 7), (''id'', JInt 12)]) [''buyer'', ''id''] of
            None \<Rightarrow> []
          | Some v \<Rightarrow> if v = JNull \<or> v = JStr [] then [] else py_str v)"
  using safe_g_total [of "JObj [(''buyer'', JInt 7), (''id'', JInt 12)]" "[''buyer'', ''id'']"]
  by simp

section \<open>Facts about the column tables\<close>

lemma length_variable_names: "length variable_names = 70"
  by (simp add: variable_names_def)

lemma distinct_variable_names: "distinct variable_names"
  by (simp add: variable_names_def)

lemma row_plan_names: "map fst row_plan = variable_names"
  by (simp add: row_plan_def variable_names_def)

lemma run_cells_appended:
  assumes "distinct (map fst plan)"
    and "\<forall>n \<in> set (map fst plan). outs n \<noteq> None"
    and "\<forall>s \<in> set (map snd plan). \<exists>v. ev s = Inr v"
  shows "run_cells ev outs plan = (None, appended ev outs plan)"
  using assms
proof (induction plan arbitrary: outs)
  case Nil
  show ?case by (simp add: appended_def)
next
  case (Cons p plan)
  obtain name src where p: "p = (name, src)" by (cases p)
  from Cons.prems p obtain col where col: "outs name = Some col" by auto
  from Cons.prems p obtain v where v: "ev src = Inr v" by auto
  let ?outs = "outs(name \<mapsto> col @ [v])"
  have d: "distinct (map fst plan)" and nm: "name \<notin> set (map fst plan)"
    using Cons.prems(1) p by auto
  have "\<forall>n \<in> set (map fst plan). ?outs n \<noteq> None"
    using Cons.prems(2) by auto
  moreover have "\<forall>s \<in> set (map snd plan). \<exists>v. ev s = Inr v"
    using Cons.prems(3) by auto
  ultimately have IH: "run_cells ev ?outs plan = (None, appended ev ?outs plan)"
    using Cons.IH d by blast
  have none: "map_of plan name = None"
    using nm by (simp add: map_of_eq_None_iff)
  have "appended ev ?outs plan = appended ev outs (p # plan)"
  proof
    fix c
    show "appended ev ?outs plan c = appended ev outs (p # plan) c"
      using none col v p by (auto simp: appended_def cell_of_def split: option.splits)
  qed
  with IH show ?case using p col v by simp
qed

lemma aligned_iff:
  "aligned outs n \<longleftrightarrow> (\<forall>c \<in> set variable_names. \<exists>col. outs c = Some col \<and> length col = n)"
  by (auto simp: aligned_def list_all_iff)

lemma aligned_empty: "aligned empty_outputs 0"
proof -
  have "\<And>c. c \<in> set variable_names \<Longrightarrow> empty_outputs c = Some []"
    unfolding empty_outputs_def
    by (rule map_of_is_SomeI) (auto simp: distinct_variable_names comp_def)
  then show ?thesis by (simp add: aligned_iff)
qed

lemma appended_aligned:
  assumes "aligned outs n"
  shows "aligned (appended ev outs row_plan) (Suc n)"
proof -
  have "\<exists>col. appended ev outs row_plan c = Some col \<and> length col = Suc n"
    if c: "c \<in> set variable_names" for c
  proof -
    from c assms obtain col where col: "outs c = Some col" "length col = n"
      by (auto simp: aligned_iff)
    from c have "c \<in> fst ` set row_plan"
      using row_plan_names by (metis set_map)
    then obtain src where "map_of row_plan c = Some src"
      by (metis domD dom_map_of_conv_image_fst)
    then show ?thesis using col by (simp add: appended_def)
  qed
  then show ?thesis by (simp add: aligned_iff)
qed

lemma run_row_aligned:
  assumes "aligned outs n" and "\<forall>s \<in> set (map snd row_plan). \<exists>v. ev s = Inr v"
  shows "run_cells ev outs row_plan = (None, appended ev outs row_plan)"
proof (rule run_cells_appended)
  show "distinct (map fst row_plan)"
    by (simp add: row_plan_names distinct_variable_names)
  show "\<forall>n \<in> set (map fst row_plan). outs n \<noteq> None"
    using assms(1) by (auto simp: row_plan_names aligned_iff)
  show "\<forall>s \<in> set (map snd row_plan). \<exists>v. ev s = Inr v"
    by (rule assms(2))
qed

lemma map_of_zip_self:
  "distinct xs \<Longrightarrow> length xs = length ys \<Longrightarrow> map (map_of (zip xs ys)) xs = map Some ys"
  by (rule nth_equalityI) (simp_all add: map_of_zip_nth)

lemma those_map_Some: "those (map Some ys) = Some ys"
  by (induction ys) simp_all

lemma unpack_aligned:
  assumes "aligned outs n"
  shows "unpack_and_return outs = Inr (map (\<lambda>c. the (outs c)) variable_names)"
    and "map length (map (\<lambda>c. the (outs c)) variable_names) = replicate 70 n"
proof -
  let ?tbl = "map (\<lambda>c. the (outs c)) variable_names"
  have m: "map outs variable_names = map Some ?tbl"
    using assms by (auto simp: aligned_iff)
  have z: "map (map_of (zip variable_names ?tbl)) variable_names = map Some ?tbl"
    by (rule map_of_zip_self) (simp_all add: distinct_variable_names)
  show "unpack_and_return outs = Inr ?tbl"
    by (simp add: unpack_and_return_def m z those_map_Some unpack_targets_def
        return_names_def del: map_map)
  have "map length ?tbl = map (\<lambda>c. n) variable_names"
    using assms by (auto simp: aligned_iff)
  then show "map length ?tbl = replicate 70 n"
    by (simp add: map_replicate_const length_variable_names)
qed

lemma cell_value_total: "\<exists>v. cell_value (JObj kvs) it src = Inr v"
  by (cases src) (simp_all add: safe_g_walk py_get_def)

section \<open>Facts about the flatten loop\<close>

lemma order_items_dict: "order_items ord = Inr items \<Longrightarrow> \<exists>kvs. ord = JObj kvs"
  by (cases ord) (simp_all add: order_items_def py_get_def)

lemma flatten_items_aligned:
  "aligned outs n \<Longrightarrow>
     \<exists>outs'. flatten_items outs (JObj kvs) its = (None, outs') \<and> aligned outs' (n + length its)"
proof (induction its arbitrary: outs n)
  case Nil
  then show ?case by simp
next
  case (Cons it its)
  let ?ev = "cell_value (JObj kvs) it"
  have row: "run_cells ?ev outs row_plan = (None, appended ?ev outs row_plan)"
    using Cons.prems by (rule run_row_aligned) (simp add: cell_value_total)
  have "aligned (appended ?ev outs row_plan) (Suc n)"
    using Cons.prems by (rule appended_aligned)
  from Cons.IH [OF this] row show ?case by simp
qed

lemma flatten_orders_aligned:
  "aligned outs n \<Longrightarrow> \<exists>m. aligned (snd (flatten_orders outs orders)) m"
proof (induction orders arbitrary: outs n)
  case Nil
  then show ?case by auto
next
  case (Cons ord rest)
  show ?case
  proof (cases "order_items ord")
    case (Inl e)
    then show ?thesis using Cons.prems by auto
  next
    case (Inr items)
    then obtain kvs where ord: "ord = JObj kvs" using order_items_dict by blast
    from flatten_items_aligned [OF Cons.prems, of kvs items]
    obtain outs' where o: "flatten_items outs (JObj kvs) items = (None, outs')"
      and a: "aligned outs' (n + length items)" by blast
    from Cons.IH [OF a] show ?thesis using Inr ord o by simp
  qed
qed

lemma order_wf_items:
  assumes "order_wf ord"
  shows "\<exists>kvs items. ord = JObj kvs \<and> order_items ord = Inr items
           \<and> length items = max 1 (length (items_of ord))"
proof -
  from assms obtain kvs where ord: "ord = JObj kvs"
    by (cases ord) (simp_all add: order_wf_def)
  show ?thesis
  proof (cases "map_of kvs ''order_items''")
    case None
    then show ?thesis using ord by (simp add: order_items_def py_get_def items_of_def)
  next
    case (Some v)
    with assms ord show ?thesis
      by (cases v; cases "items_of ord")
         (auto simp: order_wf_def order_items_def py_get_def items_of_def)
  qed
qed

lemma flatten_orders_count:
  "list_all order_wf orders \<Longrightarrow> aligned outs n \<Longrightarrow>
     \<exists>outs'. flatten_orders outs orders = (None, outs')
       \<and> aligned outs' (n + sum_list (map (\<lambda>ord. max 1 (length (items_of ord))) orders))"
proof (induction orders arbitrary: outs n)
  case Nil
  then show ?case by simp
next
  case (Cons ord rest)
  from Cons.prems(1) have wf: "order_wf ord" and wfs: "list_all order_wf rest" by simp_all
  from order_wf_items [OF wf] obtain kvs items where ord: "ord = JObj kvs"
    and items: "order_items ord = Inr items"
    and len: "length items = max 1 (length (items_of ord))" by blast
  from flatten_items_aligned [OF Cons.prems(2), of kvs items]
  obtain outs' where o: "flatten_items outs (JObj kvs) items = (None, outs')"
    and a: "aligned outs' (n + length items)" by blast
  from Cons.IH [OF wfs a] obtain outs'' where
    r: "flatten_orders outs' rest = (None, outs'')" and
    a': "aligned outs''
           (n + length items + sum_list (map (\<lambda>ord. max 1 (length (items_of ord))) rest))"
    by blast
  have "flatten_orders outs (ord # rest) = (None, outs'')"
    using items o r ord by simp
  moreover have "n + length items + sum_list (map (\<lambda>ord. max 1 (length (items_of ord))) rest)
      = n + sum_list (map (\<lambda>ord. max 1 (length (items_of ord))) (ord # rest))"
    using len by simp
  ultimately show ?case using a' by (metis)
qed

lemma snd_flatten_stage: "snd (flatten_stage orders) = snd (flatten_orders empty_outputs orders)"
  by (simp add: flatten_stage_def split: prod.splits option.splits)

lemma flatten_orders_append:
  "flatten_orders outs (xs @ ys) =
     (case flatten_orders outs xs of
        (Some e, outs') \<Rightarrow> (Some e, outs')
      | (None, outs') \<Rightarrow> flatten_orders outs' ys)"
  by (induction xs arbitrary: outs) (auto split: sum.splits prod.splits option.splits)

text \<open>
  C1. For every list of orders of the data model, the flatten loop ends without an
  exception and every column of the returned table holds as many cells as the sum over
  the orders of \<open>max 1\<close> (number of the order's items): one row for an order whose
  \<^verbatim>\<open>order_items\<close> is absent, null or empty, \<open>n\<close> rows for an order with \<open>n \<ge> 1\<close> items.
\<close>

theorem flatten_row_count:
  assumes "list_all order_wf orders"
  shows "fst (flatten_orders empty_outputs orders) = None
    \<and> (\<exists>tbl. flatten_table orders = Inr tbl
          \<and> map length tbl =
              replicate (length variable_names)
                (sum_list (map (\<lambda>ord. max 1 (length (items_of ord))) orders)))"
proof -
  let ?n = "sum_list (map (\<lambda>ord. max 1 (length (items_of ord))) orders)"
  from flatten_orders_count [OF assms aligned_empty]
  obtain outs where f: "flatten_orders empty_outputs orders = (None, outs)"
    and a: "aligned outs ?n" by auto
  have "flatten_table orders = unpack_and_return outs"
    by (simp add: flatten_table_def snd_flatten_stage f)
  with unpack_aligned [OF a] f show ?thesis
    by (simp add: length_variable_names)
qed

theorem flatten_row_count_witness:
  "list_all order_wf sample_orders
   \<and> fst (flatten_orders empty_outputs sample_orders) = None
   \<and> (\<exists>tbl. flatten_table sample_orders = Inr tbl
        \<and> map length tbl = replicate (length variable_names) 5)"
proof -
  have wf: "list_all order_wf sample_orders"
    by (simp add: sample_orders_def order_wf_def)
  have n: "sum_list (map (\<lambda>ord. max 1 (length (items_of ord))) sample_orders) = 5"
    by (simp add: sample_orders_def items_of_def)
  from flatten_row_count [OF wf] wf show ?thesis
    unfolding n by blast
qed

lemma flatten_orders_stop:
  assumes "fst (flatten_orders outs pre) = None" and "order_items bad = Inl e"
  shows "flatten_orders outs (pre @ bad # rest) = (Some e, snd (flatten_orders outs pre))"
  using assms by (cases "flatten_orders outs pre") (simp add: flatten_orders_append)

lemma flatten_table_aligned:
  assumes "aligned (snd (flatten_orders empty_outputs orders)) n"
  shows "flatten_table orders = Inr (map (\<lambda>c. the (snd (flatten_orders empty_outputs orders) c)) variable_names)"
    and "column_lengths (flatten_table orders) = Some (replicate (length variable_names) n)"
  using unpack_aligned [OF assms]
  by (simp_all add: flatten_table_def snd_flatten_stage column_lengths_def length_variable_names)

lemma order_items_bad_order: "order_items bad_order = Inl TypeError"
  by (simp add: bad_order_def order_items_def py_get_def)

lemma flatten_single_ok:
  "fst (flatten_orders empty_outputs [JObj [(''id'', JStr ''A'')]]) = None"
  "aligned (snd (flatten_orders empty_outputs [JObj [(''id'', JStr ''A'')]])) 1"
proof -
  have wf: "list_all order_wf [JObj [(''id'', JStr ''A'')]]"
    by (simp add: order_wf_def)
  from flatten_orders_count [OF wf aligned_empty]
  show "fst (flatten_orders empty_outputs [JObj [(''id'', JStr ''A'')]]) = None"
    and "aligned (snd (flatten_orders empty_outputs [JObj [(''id'', JStr ''A'')]])) 1"
    by (auto simp: items_of_def)
qed

text \<open>
  C4, as the claim states it, fails: with a failing order between two good ones the loop
  ends at the failing order, and the table is the one of the first order alone, one row;
  the third order is never processed.
\<close>

theorem flatten_does_not_continue:
  "fst (flatten_orders empty_outputs orders_bad_middle) = Some TypeError
   \<and> flatten_table orders_bad_middle = flatten_table [JObj [(''id'', JStr ''A'')]]
   \<and> column_lengths (flatten_table orders_bad_middle) = Some (replicate (length variable_names) 1)"
proof -
  have split: "orders_bad_middle = [JObj [(''id'', JStr ''A'')]] @ bad_order # [JObj [(''id'', JStr ''C'')]]"
    by (simp add: orders_bad_middle_def)
  have stop: "flatten_orders empty_outputs orders_bad_middle
      = (Some TypeError, snd (flatten_orders empty_outputs [JObj [(''id'', JStr ''A'')]]))"
    unfolding split
    by (rule flatten_orders_stop [OF flatten_single_ok(1) order_items_bad_order])
  have same: "flatten_table orders_bad_middle = flatten_table [JObj [(''id'', JStr ''A'')]]"
    by (simp add: flatten_table_def snd_flatten_stage stop)
  show ?thesis
    using stop same flatten_table_aligned(2) [OF flatten_single_ok(2)] by simp
qed

text \<open>
  C4, amended. An exception raised for one order does not empty the table: the rows
  appended for the orders before it are kept and returned, and the error is logged. The
  loop ends there: the orders after the failing one are not processed, so the table is
  the one of the orders before it.
\<close>

theorem flatten_error_keeps_rows:
  assumes "fst (flatten_orders empty_outputs pre) = None" and "order_items bad = Inl e"
  shows "fst (flatten_orders empty_outputs (pre @ bad # rest)) = Some e
    \<and> fst (flatten_stage (pre @ bad # rest)) = [LogError ''Flatten error: '']
    \<and> flatten_table (pre @ bad # rest) = flatten_table pre
    \<and> (\<exists>tbl. flatten_table pre = Inr tbl)"
proof -
  have stop: "flatten_orders empty_outputs (pre @ bad # rest)
      = (Some e, snd (flatten_orders empty_outputs pre))"
    by (rule flatten_orders_stop [OF assms])
  obtain m where "aligned (snd (flatten_orders empty_outputs pre)) m"
    using flatten_orders_aligned [OF aligned_empty] by blast
  then have "\<exists>tbl. flatten_table pre = Inr tbl"
    using flatten_table_aligned(1) by blast
  then show ?thesis
    by (simp add: stop flatten_table_def snd_flatten_stage) (simp add: flatten_stage_def stop)
qed

theorem flatten_error_keeps_rows_witness:
  "fst (flatten_orders empty_outputs [JObj [(''id'', JStr ''A'')]]) = None
   \<and> order_items bad_order = Inl TypeError
   \<and> fst (flatten_orders empty_outputs
        ([JObj [(''id'', JStr ''A'')]] @ bad_order # [JObj [(''id'', JStr ''C'')]])) = Some TypeError
   \<and> flatten_table ([JObj [(''id'', JStr ''A'')]] @ bad_order # [JObj [(''id'', JStr ''C'')]])
       = flatten_table [JObj [(''id'', JStr ''A'')]]"
  using flatten_error_keeps_rows [OF flatten_single_ok(1) order_items_bad_order,
      of "[JObj [(''id'', JStr ''C'')]]"]
    flatten_single_ok(1) order_items_bad_order
  by blast

section \<open>Booking questions\<close>

lemma booking_cell:
  "cell_value (JObj kvs) it BookingQuestions =
     Inr (case map_of kvs ''booking_questions'' of
            None \<Rightarrow> []
          | Some bq \<Rightarrow> if bq = JNull \<or> bq = JStr [] then [] else py_json_dumps bq)"
  by (simp add: py_get_def split: option.splits)

lemma booking_plan: "map_of row_plan ''booking_questions'' = Some BookingQuestions"
  by (simp add: row_plan_def)

lemma dumps_questions:
  \<open>py_json_dumps (JArr [JObj [(''q'', JStr ''age'')]]) = ''[{"q": "age"}]''\<close>
  by (simp add: json_str_def json_escape_char_def)

text \<open>
  C5, as the claim states it, fails twice. The booking questions of the scenario are
  written with a blank after the colon, not in the compact form, and an empty list is
  written \<^verbatim>\<open>[]\<close>, not as the empty string.
\<close>

theorem booking_questions_not_compact:
  \<open>cell_value (JObj order_with_questions) (JObj []) BookingQuestions = Inr ''[{"q": "age"}]''
   \<and> cell_value (JObj order_with_questions) (JObj []) BookingQuestions \<noteq> Inr ''[{"q":"age"}]''
   \<and> cell_value (JObj order_with_no_questions) (JObj []) BookingQuestions = Inr ''[]''
   \<and> cell_value (JObj order_with_no_questions) (JObj []) BookingQuestions \<noteq> Inr []\<close>
  by (simp add: order_with_questions_def order_with_no_questions_def py_get_def
      json_str_def json_escape_char_def)

text \<open>
  C5, amended. In every row of an order, the \<^verbatim>\<open>booking_questions\<close> cell is the empty
  string when the order's \<^verbatim>\<open>booking_questions\<close> is absent, null or the empty string, and
  otherwise the text \<^verbatim>\<open>json.dumps\<close> gives with its default separators \<^verbatim>\<open>", "\<close> and
  \<^verbatim>\<open>": "\<close>; other empty values are serialized too. The questions of the scenario give
  \<^verbatim>\<open>[{"q": "age"}]\<close>.
\<close>

theorem booking_questions_cell:
  assumes "aligned outs n"
  shows \<open>\<exists>outs' col.
      run_cells (cell_value (JObj kvs) it) outs row_plan = (None, outs')
      \<and> outs ''booking_questions'' = Some col
      \<and> outs' ''booking_questions'' =
          Some (col @ [case map_of kvs ''booking_questions'' of
                         None \<Rightarrow> []
                       | Some bq \<Rightarrow> if bq = JNull \<or> bq = JStr [] then [] else py_json_dumps bq])
      \<and> py_json_dumps (JArr [JObj [(''q'', JStr ''age'')]]) = ''[{"q": "age"}]''\<close>
proof -
  let ?ev = "cell_value (JObj kvs) it"
  have row: "run_cells ?ev outs row_plan = (None, appended ?ev outs row_plan)"
    using assms by (rule run_row_aligned) (simp add: cell_value_total)
  have "(''booking_questions'', BookingQuestions) \<in> set row_plan"
    by (rule map_of_SomeD [OF booking_plan])
  then have "''booking_questions'' \<in> fst ` set row_plan"
    by (rule rev_image_eqI) simp
  then have "''booking_questions'' \<in> set variable_names"
    unfolding row_plan_names [symmetric] set_map .
  with assms obtain col where col: "outs ''booking_questions'' = Some col"
    by (auto simp: aligned_iff)
  have cell: "cell_of ?ev BookingQuestions =
      (case map_of kvs ''booking_questions'' of
         None \<Rightarrow> []
       | Some bq \<Rightarrow> if bq = JNull \<or> bq = JStr [] then [] else py_json_dumps bq)"
    by (simp only: cell_of_def booking_cell sum.case)
  have app: "appended ?ev outs row_plan ''booking_questions'' =
      Some (col @ [case map_of kvs ''booking_questions'' of
                     None \<Rightarrow> []
                   | Some bq \<Rightarrow> if bq = JNull \<or> bq = JStr [] then [] else py_json_dumps bq])"
    by (simp only: appended_def booking_plan col option.case option.map cell)
  show ?thesis
    by (intro exI [of _ "appended ?ev outs row_plan"] exI [of _ col] conjI row col app
        dumps_questions)
qed

theorem booking_questions_cell_witness:
  \<open>aligned empty_outputs 0
   \<and> (\<exists>outs' col.
      run_cells (cell_value (JObj order_with_questions) (JObj [])) empty_outputs row_plan = (None, outs')
      \<and> empty_outputs ''booking_questions'' = Some col
      \<and> outs' ''booking_questions'' = Some (col @ [''[{"q": "age"}]'']))\<close>
proof -
  have q: "map_of order_with_questions ''booking_questions'' = Some (JArr [JObj [(''q'', JStr ''age'')]])"
    by (simp add: order_with_questions_def)
  from booking_questions_cell [OF aligned_empty, of order_with_questions "JObj []"]
  have \<open>\<exists>outs' col.
      run_cells (cell_value (JObj order_with_questions) (JObj [])) empty_outputs row_plan = (None, outs')
      \<and> empty_outputs ''booking_questions'' = Some col
      \<and> outs' ''booking_questions'' = Some (col @ [''[{"q": "age"}]''])\<close>
    by (simp add: q dumps_questions del: py_json_dumps.simps)
  with aligned_empty show ?thesis by (rule conjI)
qed

section \<open>Alignment of the columns\<close>

lemma run_cells_append:
  "run_cells ev outs (xs @ ys) =
     (case run_cells ev outs xs of
        (Some e, outs') \<Rightarrow> (Some e, outs')
      | (None, outs') \<Rightarrow> run_cells ev outs' ys)"
  by (induction xs arbitrary: outs) (auto split: option.splits sum.splits)

lemma run_cells_raise:
  assumes al: "aligned outs n"
    and plan: "row_plan = pre @ (name, src) # rest"
    and ok: "list_all (\<lambda>s. \<exists>v. ev s = Inr v) (map snd pre)"
    and bad: "ev src = Inl e"
  shows "run_cells ev outs row_plan = (Some e, appended ev outs pre)"
    and "list_all (\<lambda>c. map_option length (appended ev outs pre c) = Some (Suc n)) (map fst pre)"
    and "list_all (\<lambda>c. map_option length (appended ev outs pre c) = Some n)
           (map fst ((name, src) # rest))"
proof -
  have names: "variable_names = map fst pre @ name # map fst rest"
    unfolding row_plan_names [symmetric] plan by simp
  have d: "distinct (map fst pre @ name # map fst rest)"
    using distinct_variable_names names by simp
  have dom: "\<And>c. c \<in> set variable_names \<Longrightarrow> \<exists>col. outs c = Some col \<and> length col = n"
    using al by (simp add: aligned_iff)
  have pre: "run_cells ev outs pre = (None, appended ev outs pre)"
  proof (rule run_cells_appended)
    show "distinct (map fst pre)" using d by simp
    show "\<forall>n \<in> set (map fst pre). outs n \<noteq> None"
    proof
      fix c assume "c \<in> set (map fst pre)"
      then have "c \<in> set variable_names" unfolding names by simp
      from dom [OF this] show "outs c \<noteq> None" by auto
    qed
    show "\<forall>s \<in> set (map snd pre). \<exists>v. ev s = Inr v"
      using ok by (simp add: list_all_iff)
  qed
  have later: "map_of pre c = None" if "c \<in> set (name # map fst rest)" for c
  proof -
    from that d have "c \<notin> set (map fst pre)" by auto
    then have "c \<notin> fst ` set pre" by simp
    then show ?thesis by (simp add: map_of_eq_None_iff)
  qed
  have "name \<in> set variable_names" unfolding names by simp
  from dom [OF this] obtain col where col: "outs name = Some col" by auto
  have "appended ev outs pre name = Some col"
    using later [of name] col by (simp add: appended_def)
  then show "run_cells ev outs row_plan = (Some e, appended ev outs pre)"
    by (simp add: plan run_cells_append pre bad)
  show "list_all (\<lambda>c. map_option length (appended ev outs pre c) = Some (Suc n)) (map fst pre)"
    unfolding list_all_iff
  proof
    fix c assume c: "c \<in> set (map fst pre)"
    then obtain s where "map_of pre c = Some s"
      by (metis domD dom_map_of_conv_image_fst set_map)
    moreover have "c \<in> set variable_names" using c unfolding names by simp
    from dom [OF this] obtain cl where "outs c = Some cl" "length cl = n" by auto
    ultimately show "map_option length (appended ev outs pre c) = Some (Suc n)"
      by (simp add: appended_def)
  qed
  show "list_all (\<lambda>c. map_option length (appended ev outs pre c) = Some n)
           (map fst ((name, src) # rest))"
    unfolding list_all_iff
  proof
    fix c assume c: "c \<in> set (map fst ((name, src) # rest))"
    then have "map_of pre c = None" using later [of c] by simp
    moreover have "c \<in> set variable_names" using c unfolding names by auto
    from dom [OF this] obtain cl where "outs c = Some cl" "length cl = n" by auto
    ultimately show "map_option length (appended ev outs pre c) = Some n"
      by (simp add: appended_def)
  qed
qed

lemma flatten_table_lengths:
  "\<exists>n. column_lengths (flatten_table orders) = Some (replicate (length variable_names) n)"
proof -
  obtain m where "aligned (snd (flatten_orders empty_outputs orders)) m"
    using flatten_orders_aligned [OF aligned_empty] by blast
  then show ?thesis using flatten_table_aligned(2) by blast
qed

text \<open>
  C10, as the claim states it, fails: a completed iteration appends to 70 columns, not 69
  (one order gives a table of 70 columns of one cell each), and after the exception of
  \<open>orders_bad_middle\<close> the columns of the returned table still have equal lengths.
\<close>

theorem seventy_columns_aligned_after_error:
  "column_lengths (flatten_table [JObj [(''id'', JStr ''A'')]]) = Some (replicate 70 1)
   \<and> length (replicate 70 (1::nat)) \<noteq> 69
   \<and> fst (flatten_orders empty_outputs orders_bad_middle) \<noteq> None
   \<and> column_lengths (flatten_table orders_bad_middle) = Some (replicate 70 1)"
proof -
  have split: "orders_bad_middle = [JObj [(''id'', JStr ''A'')]] @ bad_order # [JObj [(''id'', JStr ''C'')]]"
    by (simp add: orders_bad_middle_def)
  have stop: "flatten_orders empty_outputs orders_bad_middle
      = (Some TypeError, snd (flatten_orders empty_outputs [JObj [(''id'', JStr ''A'')]]))"
    unfolding split
    by (rule flatten_orders_stop [OF flatten_single_ok(1) order_items_bad_order])
  have same: "flatten_table orders_bad_middle = flatten_table [JObj [(''id'', JStr ''A'')]]"
    by (simp add: flatten_table_def snd_flatten_stage stop)
  show ?thesis
    using stop same flatten_table_aligned(2) [OF flatten_single_ok(2)]
    by (simp add: length_variable_names)
qed

text \<open>
  C10, amended. Each iteration over an order and one of its items that completes appends
  exactly one cell to each of the 70 columns. Nothing is rolled back when a statement
  of a row raises: the cells appended before it stay, one more in the columns before the
  failing statement than in the others. But on the values of the model no statement of a
  row raises; the exceptions of the loop arise before a row starts. So the columns of
  the returned table have equal lengths for every list of orders, with or without an
  exception.
\<close>

theorem flatten_columns_aligned:
  "(order_items ord = Inr items \<and> aligned outs n \<longrightarrow>
      (\<exists>outs'. run_cells (cell_value ord it) outs row_plan = (None, outs') \<and> aligned outs' (Suc n)))
   \<and> length variable_names = 70
   \<and> (\<exists>m. column_lengths (flatten_table orders) = Some (replicate 70 m))
   \<and> (aligned outs n \<and> row_plan = pre @ (name, src) # rest
        \<and> list_all (\<lambda>s. \<exists>v. ev s = Inr v) (map snd pre) \<and> ev src = Inl e \<longrightarrow>
      run_cells ev outs row_plan = (Some e, appended ev outs pre)
      \<and> list_all (\<lambda>c. map_option length (appended ev outs pre c) = Some (Suc n)) (map fst pre)
      \<and> list_all (\<lambda>c. map_option length (appended ev outs pre c) = Some n)
           (map fst ((name, src) # rest)))"
proof (intro conjI)
  show "order_items ord = Inr items \<and> aligned outs n \<longrightarrow>
      (\<exists>outs'. run_cells (cell_value ord it) outs row_plan = (None, outs') \<and> aligned outs' (Suc n))"
  proof
  assume h: "order_items ord = Inr items \<and> aligned outs n"
  then obtain kvs where ord: "ord = JObj kvs" using order_items_dict by blast
  from h have al: "aligned outs n" by (rule conjunct2)
  have "run_cells (cell_value ord it) outs row_plan = (None, appended (cell_value ord it) outs row_plan)"
    unfolding ord by (rule run_row_aligned [OF al]) (simp add: cell_value_total)
  moreover have "aligned (appended (cell_value ord it) outs row_plan) (Suc n)"
    by (rule appended_aligned [OF al])
  ultimately show "\<exists>outs'. run_cells (cell_value ord it) outs row_plan = (None, outs')
      \<and> aligned outs' (Suc n)" by blast
  qed
next
  show "length variable_names = 70" by (rule length_variable_names)
next
  show "\<exists>m. column_lengths (flatten_table orders) = Some (replicate 70 m)"
    using flatten_table_lengths [of orders] by (simp add: length_variable_names)
next
  show "aligned outs n \<and> row_plan = pre @ (name, src) # rest
        \<and> list_all (\<lambda>s. \<exists>v. ev s = Inr v) (map snd pre) \<and> ev src = Inl e \<longrightarrow>
      run_cells ev outs row_plan = (Some e, appended ev outs pre)
      \<and> list_all (\<lambda>c. map_option length (appended ev outs pre c) = Some (Suc n)) (map fst pre)
      \<and> list_all (\<lambda>c. map_option length (appended ev outs pre c) = Some n)
           (map fst ((name, src) # rest))"
  proof
  assume h: "aligned outs n \<and> row_plan = pre @ (name, src) # rest
        \<and> list_all (\<lambda>s. \<exists>v. ev s = Inr v) (map snd pre) \<and> ev src = Inl e"
  from h have a1: "aligned outs n" by (rule conjunct1)
  from h have a2: "row_plan = pre @ (name, src) # rest" by (elim conjE)
  from h have a3: "list_all (\<lambda>s. \<exists>v. ev s = Inr v) (map snd pre)" by (elim conjE)
  from h have a4: "ev src = Inl e" by (elim conjE)
  show "run_cells ev outs row_plan = (Some e, appended ev outs pre)
      \<and> list_all (\<lambda>c. map_option length (appended ev outs pre c) = Some (Suc n)) (map fst pre)
      \<and> list_all (\<lambda>c. map_option length (appended ev outs pre c) = Some n)
           (map fst ((name, src) # rest))"
    by (intro conjI run_cells_raise [OF a1 a2 a3 a4])
  qed
qed

theorem flatten_columns_aligned_witness:
  "order_items (JObj [(''id'', JStr ''A'')]) = Inr [JObj []]
   \<and> aligned empty_outputs 0
   \<and> (\<exists>outs'. run_cells (cell_value (JObj [(''id'', JStr ''A'')]) (JObj [])) empty_outputs row_plan
                = (None, outs') \<and> aligned outs' (Suc 0))
   \<and> (\<exists>m. column_lengths (flatten_table sample_orders) = Some (replicate 70 m))
   \<and> row_plan = take 30 row_plan @ (''booking_questions'', BookingQuestions) # drop 31 row_plan
   \<and> list_all (\<lambda>s. \<exists>v. raising_ev s = Inr v) (map snd (take 30 row_plan))
   \<and> raising_ev BookingQuestions = Inl TypeError
   \<and> run_cells raising_ev empty_outputs row_plan
       = (Some TypeError, appended raising_ev empty_outputs (take 30 row_plan))"
proof -
  have a: "order_items (JObj [(''id'', JStr ''A'')]) = Inr [JObj []]"
    by (simp add: order_items_def py_get_def)
  have b: "row_plan = take 30 row_plan @ (''booking_questions'', BookingQuestions) # drop 31 row_plan"
    by (simp add: row_plan_def)
  have c: "list_all (\<lambda>s. \<exists>v. raising_ev s = Inr v) (map snd (take 30 row_plan))"
    by (simp add: row_plan_def raising_ev_def)
  have d: "raising_ev BookingQuestions = Inl TypeError"
    by (simp add: raising_ev_def)
  note T = flatten_columns_aligned [of "JObj [(''id'', JStr ''A'')]" "[JObj []]" empty_outputs 0
      "JObj []" sample_orders "take 30 row_plan" "''booking_questions''" BookingQuestions
      "drop 31 row_plan" raising_ev TypeError]
  have r1: "\<exists>outs'. run_cells (cell_value (JObj [(''id'', JStr ''A'')]) (JObj [])) empty_outputs row_plan
                = (None, outs') \<and> aligned outs' (Suc 0)"
    by (rule T [THEN conjunct1, THEN mp, OF conjI [OF a aligned_empty]])
  have r2: "\<exists>m. column_lengths (flatten_table sample_orders) = Some (replicate 70 m)"
    by (rule T [THEN conjunct2, THEN conjunct2, THEN conjunct1])
  have r3: "run_cells raising_ev empty_outputs row_plan
       = (Some TypeError, appended raising_ev empty_outputs (take 30 row_plan))"
    by (rule T [THEN conjunct2, THEN conjunct2, THEN conjunct2, THEN mp,
          OF conjI [OF aligned_empty conjI [OF b conjI [OF c d]]], THEN conjunct1])
  show ?thesis
    by (intro conjI a aligned_empty r1 r2 b c d r3)
qed

section \<open>Partition resolution\<close>

lemma partition_value_first:
  "partition_value (JObj kvs) =
     Inr (case first_present kvs partition_keys of None \<Rightarrow> JInt 0 | Some v \<Rightarrow> v)"
  by (simp add: partition_value_def partition_keys_def split: option.splits)

lemma entry_number_partition:
  "entry_number p = Some n \<Longrightarrow> partition_number p = Inr n"
proof (cases p)
  case (JObj kvs)
  assume "entry_number p = Some n"
  with JObj show ?thesis
    by (auto simp: partition_number_def partition_value_first
        split: option.splits json.splits)
qed (simp_all add: partition_number_def)

lemma map_raise_Inr:
  "map f xs = map Inr ys \<Longrightarrow> map_raise f xs = Inr ys"
  by (induction xs arbitrary: ys) auto

lemma map_raise_Inl:
  "x \<in> set xs \<Longrightarrow> f x = Inl e \<Longrightarrow> \<exists>e'. map_raise f xs = Inl e'"
  by (induction xs) (auto split: sum.splits)

lemma entries_numbers:
  assumes "map entry_number es = map Some ns"
  shows "map_raise partition_number es = Inr ns"
proof (rule map_raise_Inr)
  show "map partition_number es = map Inr ns"
  proof (rule nth_equalityI)
    show "length (map partition_number es) = length (map Inr ns)"
      using assms by (metis length_map)
    fix i assume i: "i < length (map partition_number es)"
    with assms have "entry_number (es ! i) = Some (ns ! i)"
      by (metis length_map nth_map)
    from entry_number_partition [OF this] i assms
    show "map partition_number es ! i = map Inr ns ! i"
      by (metis length_map nth_map)
  qed
qed

lemma resolve_sample: "resolve_partitions (JArr sample_partition_info) = Inr [0, 2, 5]"
  by (simp add: resolve_partitions_def sample_partition_info_def partition_number_def
      partition_value_def sorted_set_def)

text \<open>
  C3. When every entry has a number in the sense of the specification (a raw integer, or
  a keyed entry read from the first present of \<^verbatim>\<open>partition_num\<close>, \<^verbatim>\<open>partition\<close>,
  \<^verbatim>\<open>page\<close>, \<^verbatim>\<open>number\<close>, 0 when none is present), the resolved list is the ascending
  list without repetition of the non-negative numbers, and \<open>[0]\<close> when there is none. The
  entries of the scenario resolve to \<open>[0, 2, 5]\<close>.
\<close>

theorem resolve_partitions_sorted:
  assumes "map entry_number es = map Some ns"
  shows "(\<exists>r. resolve_partitions (JArr es) = Inr r \<and> sorted r \<and> distinct r
            \<and> set r = (if filter (\<lambda>n. 0 \<le> n) ns = [] then {0}
                       else set (filter (\<lambda>n. 0 \<le> n) ns)))
         \<and> resolve_partitions (JArr sample_partition_info) = Inr [0, 2, 5]"
proof -
  let ?r = "sorted_set (filter (\<lambda>n. 0 \<le> n) ns)"
  have res: "resolve_partitions (JArr es) = Inr (if ?r \<noteq> [] then ?r else [0])"
    by (simp add: resolve_partitions_def entries_numbers [OF assms] Let_def)
  have s: "sorted ?r" and d: "distinct ?r" and st: "set ?r = set (filter (\<lambda>n. 0 \<le> n) ns)"
    by (simp_all add: sorted_set_def)
  have e: "?r = [] \<longleftrightarrow> filter (\<lambda>n. 0 \<le> n) ns = []"
    using st by (metis set_empty)
  show ?thesis
  proof (cases "filter (\<lambda>n. 0 \<le> n) ns = []")
    case True
    then have "?r = []" using e by simp
    with res True resolve_sample show ?thesis by simp
  next
    case False
    then have "?r \<noteq> []" using e by simp
    with res False s d st resolve_sample show ?thesis by simp
  qed
qed

theorem resolve_partitions_sorted_witness:
  "map entry_number sample_partition_info = map Some [2, 0, 5, 0]
   \<and> (\<exists>r. resolve_partitions (JArr sample_partition_info) = Inr r \<and> sorted r \<and> distinct r
          \<and> set r = {0, 2, 5})"
proof -
  have m: "map entry_number sample_partition_info = map Some [2, 0, 5, 0]"
    by (simp add: sample_partition_info_def partition_keys_def)
  from resolve_partitions_sorted [OF m] m show ?thesis
    by auto
qed

section \<open>The polling loop\<close>

lemma poll_loop_nothing:
  assumes "nothing_yet (poll_reply env i)"
  shows "poll_loop env url i (Suc n) =
     (case poll_loop env url (Suc i) n of (ev, r) \<Rightarrow> ([GetUrl url [] 30, Sleep 2] @ ev, r))"
  using assms by (auto simp: nothing_yet_def split: sum.splits prod.splits)

lemma poll_loop_quiet:
  assumes "list_all (\<lambda>i. nothing_yet (poll_reply env i)) [s..<s + k]"
  shows "poll_loop env url s (k + n) =
     (case poll_loop env url (s + k) n of (ev, r) \<Rightarrow> (quiet_polls url k @ ev, r))"
  using assms
proof (induction k arbitrary: s)
  case 0
  show ?case by (simp add: quiet_polls_def)
next
  case (Suc k)
  have "s < s + Suc k" by simp
  from upt_conv_Cons [OF this] have u: "[s..<s + Suc k] = s # [Suc s..<Suc s + k]"
    by simp
  from Suc.prems have first: "nothing_yet (poll_reply env s)"
    and rest: "list_all (\<lambda>i. nothing_yet (poll_reply env i)) [Suc s..<Suc s + k]"
    unfolding u by simp_all
  have "poll_loop env url s (Suc k + n) =
      (case poll_loop env url (Suc s) (k + n) of (ev, r) \<Rightarrow> ([GetUrl url [] 30, Sleep 2] @ ev, r))"
    using poll_loop_nothing [OF first, of url "k + n"] by simp
  also have "\<dots> = (case poll_loop env url (s + Suc k) n of (ev, r) \<Rightarrow> (quiet_polls url (Suc k) @ ev, r))"
    using Suc.IH [OF rest] by (simp add: quiet_polls_def split: prod.splits)
  finally show ?case .
qed

lemma poll_loop_timeout:
  assumes "quiet_until env 60"
  shows "poll_loop env url 0 60 = (quiet_polls url 60, Inr None)"
proof -
  have "list_all (\<lambda>i. nothing_yet (poll_reply env i)) [0..<0 + 60]"
    using assms by (simp add: quiet_until_def)
  from poll_loop_quiet [OF this, of url 0] show ?thesis by simp
qed

lemma poll_loop_found:
  assumes k: "k < 60" and q: "quiet_until env k"
    and r: "poll_reply env k = Inr j" and g: "py_get j ''partition_info'' = Inr pinfo"
    and t: "py_truthy pinfo"
  shows "poll_loop env url 0 60 =
     (quiet_polls url k @ [GetUrl url [] 30],
      case resolve_partitions pinfo of Inl e \<Rightarrow> Inl e | Inr parts \<Rightarrow> Inr (Some parts))"
proof -
  from k obtain n where n: "60 = k + Suc n"
    by (metis add_Suc_right less_imp_Suc_add)
  have "list_all (\<lambda>i. nothing_yet (poll_reply env i)) [0..<0 + k]"
    using q by (simp add: quiet_until_def)
  from poll_loop_quiet [OF this, of url "Suc n"]
  have "poll_loop env url 0 (k + Suc n) =
      (case poll_loop env url k (Suc n) of (ev, r) \<Rightarrow> (quiet_polls url k @ ev, r))"
    by simp
  moreover have "poll_loop env url k (Suc n) =
      ([GetUrl url [] 30],
       case resolve_partitions pinfo of Inl e \<Rightarrow> Inl e | Inr parts \<Rightarrow> Inr (Some parts))"
    using r g t by (simp split: sum.splits)
  ultimately show ?thesis unfolding n by simp
qed

lemma resolve_nonempty: "resolve_partitions pinfo = Inr parts \<Longrightarrow> parts \<noteq> []"
  by (auto simp: resolve_partitions_def Let_def split: sum.splits if_splits)

lemma poll_stage_timeout:
  assumes "quiet_until env 60"
  shows "poll_stage cfg env sid =
     (quiet_polls (poll_url cfg sid) 60 @ [LogError ''Timeout waiting for results''], Stop)"
  by (simp add: poll_stage_def poll_try_def guarded_def poll_loop_timeout [OF assms])

lemma poll_stage_found:
  assumes "k < 60" and "quiet_until env k"
    and "poll_reply env k = Inr j" and "py_get j ''partition_info'' = Inr pinfo"
    and "py_truthy pinfo"
  shows "poll_stage cfg env sid =
     (case resolve_partitions pinfo of
        Inl e \<Rightarrow> (quiet_polls (poll_url cfg sid) k
                   @ [GetUrl (poll_url cfg sid) [] 30, LogError ''Polling error: ''], Stop)
      | Inr parts \<Rightarrow> (quiet_polls (poll_url cfg sid) k @ [GetUrl (poll_url cfg sid) [] 30],
                      Next parts))"
proof (cases "resolve_partitions pinfo")
  case (Inl e)
  then show ?thesis
    by (simp add: poll_stage_def poll_try_def guarded_def poll_loop_found [OF assms])
next
  case (Inr parts)
  with resolve_nonempty have "parts \<noteq> []" by blast
  with Inr show ?thesis
    by (simp add: poll_stage_def poll_try_def guarded_def poll_loop_found [OF assms])
qed

lemma quiet_polling: "\<not> py_truthy pinfo \<Longrightarrow> quiet_until (env_polling pinfo) k"
  by (simp add: quiet_until_def list_all_iff nothing_yet_def env_polling_def py_get_def)

lemma poll_loop_no_fetch: "\<not> list_ex is_page_fetch (fst (poll_loop env url i n))"
proof (induction n arbitrary: i)
  case 0
  show ?case by simp
next
  case (Suc n)
  obtain ev r where p: "poll_loop env url (Suc i) n = (ev, r)"
    by (cases "poll_loop env url (Suc i) n")
  with Suc [of "Suc i"] have "\<not> list_ex is_page_fetch ev" by simp
  with p show ?case by (auto simp: Let_def split: sum.splits)
qed

lemma poll_no_fetch: "\<not> list_ex is_page_fetch (fst (poll_stage cfg env sid))"
  using poll_loop_no_fetch [of env "poll_url cfg sid" 0 60]
  by (auto simp: poll_stage_def poll_try_def guarded_def split: prod.splits sum.splits option.splits)

lemma poll_first_attempt:
  assumes "py_truthy pinfo"
  shows "poll_stage cfg (env_polling pinfo) sid =
     (case resolve_partitions pinfo of
        Inl e \<Rightarrow> ([GetUrl (poll_url cfg sid) [] 30, LogError ''Polling error: ''], Stop)
      | Inr parts \<Rightarrow> ([GetUrl (poll_url cfg sid) [] 30], Next parts))"
proof -
  have q: "quiet_until (env_polling pinfo) 0" by (simp add: quiet_until_def)
  have r: "poll_reply (env_polling pinfo) 0 = Inr (JObj [(''partition_info'', pinfo)])"
    by (simp add: env_polling_def)
  have g: "py_get (JObj [(''partition_info'', pinfo)]) ''partition_info'' = Inr pinfo"
    by (simp add: py_get_def)
  have "(0::nat) < 60" by simp
  from poll_stage_found [OF this q r g assms, of cfg sid] show ?thesis
    by (simp add: quiet_polls_def split: sum.splits)
qed

section \<open>The table of a run that stops\<close>

lemma unpack_empty: "unpack_and_return empty_outputs = Inr (replicate 70 [])"
proof -
  have "map (\<lambda>c. the (empty_outputs c)) variable_names = map (\<lambda>c. []) variable_names"
  proof (rule map_cong [OF refl])
    fix c assume "c \<in> set variable_names"
    then have "empty_outputs c = Some []"
      unfolding empty_outputs_def
      by (intro map_of_is_SomeI) (auto simp: distinct_variable_names comp_def)
    then show "the (empty_outputs c) = []" by simp
  qed
  then show ?thesis
    using unpack_aligned(1) [OF aligned_empty]
    by (simp add: map_replicate_const length_variable_names)
qed

lemma main_auth_stop:
  "auth_stage cfg env = (ev1, Stop) \<Longrightarrow> main cfg env = (ev1, Inr (replicate 70 []))"
  by (simp add: main_def unpack_empty)

lemma main_search_stop:
  "auth_stage cfg env = (ev1, Next tok) \<Longrightarrow> search_stage cfg env = (ev2, Stop) \<Longrightarrow>
     main cfg env = (ev1 @ ev2, Inr (replicate 70 []))"
  by (simp add: main_def unpack_empty)

lemma main_poll_stop:
  "auth_stage cfg env = (ev1, Next tok) \<Longrightarrow> search_stage cfg env = (ev2, Next sid) \<Longrightarrow>
   poll_stage cfg env sid = (ev3, Stop) \<Longrightarrow>
     main cfg env = (ev1 @ ev2 @ ev3, Inr (replicate 70 []))"
  by (simp add: main_def unpack_empty)

lemma main_fetch_stop:
  "auth_stage cfg env = (ev1, Next tok) \<Longrightarrow> search_stage cfg env = (ev2, Next sid) \<Longrightarrow>
   poll_stage cfg env sid = (ev3, Next parts) \<Longrightarrow> fetch_stage cfg env sid parts = (ev4, Stop) \<Longrightarrow>
     main cfg env = (ev1 @ ev2 @ ev3 @ ev4, Inr (replicate 70 []))"
  by (simp add: main_def unpack_empty)

lemma main_flatten:
  "auth_stage cfg env = (ev1, Next tok) \<Longrightarrow> search_stage cfg env = (ev2, Next sid) \<Longrightarrow>
   poll_stage cfg env sid = (ev3, Next parts) \<Longrightarrow>
   fetch_stage cfg env sid parts = (ev4, Next orders) \<Longrightarrow>
     main cfg env = (ev1 @ ev2 @ ev3 @ ev4 @ fst (flatten_stage orders), flatten_table orders)"
  by (simp add: main_def flatten_table_def split: prod.splits)

lemma main_total: "\<exists>tbl. snd (main cfg env) = Inr tbl \<and> length tbl = 70"
proof -
  have e: "\<exists>tbl. unpack_and_return empty_outputs = Inr tbl \<and> length tbl = 70"
    by (simp add: unpack_empty)
  have f: "\<exists>tbl. unpack_and_return outs = Inr tbl \<and> length tbl = 70"
    if "flatten_stage orders = (ev5, outs)" for orders ev5 outs
  proof -
    obtain m where "aligned (snd (flatten_orders empty_outputs orders)) m"
      using flatten_orders_aligned [OF aligned_empty] by blast
    moreover have "snd (flatten_orders empty_outputs orders) = outs"
      using that snd_flatten_stage [of orders] by simp
    ultimately have "aligned outs m" by simp
    from unpack_aligned(1) [OF this] show ?thesis
      by (simp add: length_variable_names)
  qed
  show ?thesis
    using e f
    by (auto simp: main_def split: prod.splits stage.splits)
qed

lemma auth_no_fetch: "\<not> list_ex is_page_fetch (fst (auth_stage cfg env))"
  by (auto simp: auth_stage_def auth_body_def guarded_def Let_def split: sum.splits)

lemma search_no_fetch: "\<not> list_ex is_page_fetch (fst (search_stage cfg env))"
  by (auto simp: search_stage_def search_try_def guarded_def Let_def split: sum.splits)

section \<open>The run with the configuration of the source\<close>

lemma kept_source:
  "kept_plan_ids (source_config u p) =
     [''420002'', ''474974'', ''416569'', ''480359'', ''474902'', ''433336'']"
  by (simp add: kept_plan_ids_def source_config_def py_isdigit_def py_isdigit_char_def
      is_ascii_digit_def py_strip_def py_isspace_def)

lemma parse_source:
  "parse_plan_ids (source_config u p) = Inr [420002, 474974, 416569, 480359, 474902, 433336]"
  by (simp add: parse_plan_ids_def kept_source py_int_str_def int_strip_def int_isspace_def
      parse_digits_def is_ascii_digit_def digit_val_def)

lemma source_fields:
  "host (source_config u p) = ''data-reporting-api.prod.feverup.com''"
  "bearer (source_config u p) = []"
  "username (source_config u p) = u"
  "password (source_config u p) = p"
  "date_field (source_config u p) = []"
  "date_from (source_config u p) = []"
  "date_to (source_config u p) = []"
  by (simp_all add: source_config_def)

lemma auth_ok:
  assumes "auth_reply env = Inr (JObj [(''access_token'', JStr ''t'')])"
  shows "auth_stage (source_config u p) env =
     ([LogInfo ''Logging in for token'',
       PostForm ''https://data-reporting-api.prod.feverup.com/v1/auth/token''
         [(''username'', u), (''password'', p)] 30],
      Next (JStr ''t''))"
  by (simp add: auth_stage_def auth_body_def guarded_def source_fields assms
      py_strip_def auth_url_def)

lemma search_ok:
  assumes "search_reply env = Inr (JObj [(''search_id'', JStr ''s1'')])"
  shows "search_stage (source_config u p) env =
     ([PostJson ''https://data-reporting-api.prod.feverup.com/v1/reports/order-items/search''
         (JObj [(''plan_ids'', JArr [JInt 420002, JInt 474974, JInt 416569, JInt 480359,
                                     JInt 474902, JInt 433336])]) 60,
       LogInfo ''Search ID: s1''],
      Next (JStr ''s1''))"
  by (simp add: search_stage_def search_try_def guarded_def parse_source search_body_def
      search_url_def py_get_def source_fields assms)

section \<open>Polling\<close>

text \<open>
  C6, as the claim states it, fails: the first attempt observes the non-empty
  \<^verbatim>\<open>partition_info\<close> \<^verbatim>\<open>[null]\<close>, and polling ends with an error, not successfully.
\<close>

theorem nonempty_partition_info_fails:
  "py_truthy (JArr [JNull])
   \<and> poll_reply (env_polling (JArr [JNull])) 0 = Inr (JObj [(''partition_info'', JArr [JNull])])
   \<and> poll_stage (source_config [] []) (env_polling (JArr [JNull])) (JStr ''s1'') =
       ([GetUrl (poll_url (source_config [] []) (JStr ''s1'')) [] 30,
         LogError ''Polling error: ''], Stop)"
proof -
  have t: "py_truthy (JArr [JNull])" by simp
  have r: "resolve_partitions (JArr [JNull]) = Inl TypeError"
    by (simp add: resolve_partitions_def partition_number_def)
  show ?thesis
    using poll_first_attempt [OF t, of "source_config [] []" "JStr ''s1''"]
    by (simp add: r env_polling_def)
qed

text \<open>
  C6, amended. If each of the 60 attempts, a \<^verbatim>\<open>GET\<close> of the job's address followed by a
  pause of 2 seconds, observes a body whose \<^verbatim>\<open>partition_info\<close> is absent or empty, polling
  fails with the timeout; the run then returns the empty table and requests no
  partition. The first attempt that observes a non-empty \<^verbatim>\<open>partition_info\<close> ends
  polling: successfully, with the resolved partitions, when the resolution of its
  entries does not raise, and through the error path when it raises.
\<close>

theorem poll_outcomes:
  "(quiet_until env 60 \<longrightarrow>
      poll_stage cfg env sid =
        (quiet_polls (poll_url cfg sid) 60 @ [LogError ''Timeout waiting for results''], Stop))
   \<and> (auth_stage cfg env = (ev1, Next tok) \<and> search_stage cfg env = (ev2, Next sid)
        \<and> poll_stage cfg env sid = (ev3, Stop) \<longrightarrow>
      main cfg env = (ev1 @ ev2 @ ev3, Inr (replicate 70 []))
      \<and> \<not> list_ex is_page_fetch (fst (main cfg env)))
   \<and> (k < 60 \<and> quiet_until env k \<and> poll_reply env k = Inr j
        \<and> py_get j ''partition_info'' = Inr pinfo \<and> py_truthy pinfo \<longrightarrow>
      poll_stage cfg env sid =
        (case resolve_partitions pinfo of
           Inl e \<Rightarrow> (quiet_polls (poll_url cfg sid) k
                      @ [GetUrl (poll_url cfg sid) [] 30, LogError ''Polling error: ''], Stop)
         | Inr parts \<Rightarrow> (quiet_polls (poll_url cfg sid) k @ [GetUrl (poll_url cfg sid) [] 30],
                         Next parts)))"
proof (intro conjI impI)
  assume "quiet_until env 60"
  then show "poll_stage cfg env sid =
      (quiet_polls (poll_url cfg sid) 60 @ [LogError ''Timeout waiting for results''], Stop)"
    by (rule poll_stage_timeout)
next
  assume h: "auth_stage cfg env = (ev1, Next tok) \<and> search_stage cfg env = (ev2, Next sid)
        \<and> poll_stage cfg env sid = (ev3, Stop)"
  then show m: "main cfg env = (ev1 @ ev2 @ ev3, Inr (replicate 70 []))"
    using main_poll_stop by blast
  have "\<not> list_ex is_page_fetch ev1" using auth_no_fetch [of cfg env] h by simp
  moreover have "\<not> list_ex is_page_fetch ev2" using search_no_fetch [of cfg env] h by simp
  moreover have "\<not> list_ex is_page_fetch ev3" using poll_no_fetch [of cfg env sid] h by simp
  ultimately show "\<not> list_ex is_page_fetch (fst (main cfg env))"
    using m by (auto simp: list_ex_iff)
next
  assume "k < 60 \<and> quiet_until env k \<and> poll_reply env k = Inr j
        \<and> py_get j ''partition_info'' = Inr pinfo \<and> py_truthy pinfo"
  then show "poll_stage cfg env sid =
        (case resolve_partitions pinfo of
           Inl e \<Rightarrow> (quiet_polls (poll_url cfg sid) k
                      @ [GetUrl (poll_url cfg sid) [] 30, LogError ''Polling error: ''], Stop)
         | Inr parts \<Rightarrow> (quiet_polls (poll_url cfg sid) k @ [GetUrl (poll_url cfg sid) [] 30],
                         Next parts))"
    using poll_stage_found by blast
qed

theorem poll_outcomes_witness:
  "quiet_until (env_polling JNull) 60
   \<and> poll_stage (source_config [] []) (env_polling JNull) (JStr ''s1'') =
       (quiet_polls (poll_url (source_config [] []) (JStr ''s1'')) 60
          @ [LogError ''Timeout waiting for results''], Stop)
   \<and> snd (main (source_config [] []) (env_polling JNull)) = Inr (replicate 70 [])
   \<and> \<not> list_ex is_page_fetch (fst (main (source_config [] []) (env_polling JNull)))
   \<and> (0::nat) < 60
   \<and> quiet_until (env_polling (JArr sample_partition_info)) 0
   \<and> py_truthy (JArr sample_partition_info)
   \<and> poll_stage (source_config [] []) (env_polling (JArr sample_partition_info)) (JStr ''s1'') =
       ([GetUrl (poll_url (source_config [] []) (JStr ''s1'')) [] 30], Next [0, 2, 5])"
proof -
  let ?c = "source_config [] []" and ?s = "JStr ''s1''"
  let ?url = "poll_url ?c ?s"
  let ?e = "env_polling JNull" and ?f = "env_polling (JArr sample_partition_info)"
  have q: "quiet_until ?e 60" by (rule quiet_polling) simp
  have p: "poll_stage ?c ?e ?s = (quiet_polls ?url 60 @ [LogError ''Timeout waiting for results''], Stop)"
    by (rule poll_outcomes [THEN conjunct1, THEN mp, OF q])
  have a: "auth_stage ?c ?e =
      ([LogInfo ''Logging in for token'',
        PostForm ''https://data-reporting-api.prod.feverup.com/v1/auth/token''
          [(''username'', []), (''password'', [])] 30], Next (JStr ''t''))"
    by (rule auth_ok) (simp add: env_polling_def)
  have s: "search_stage ?c ?e =
      ([PostJson ''https://data-reporting-api.prod.feverup.com/v1/reports/order-items/search''
          (JObj [(''plan_ids'', JArr [JInt 420002, JInt 474974, JInt 416569, JInt 480359,
                                      JInt 474902, JInt 433336])]) 60,
        LogInfo ''Search ID: s1''], Next ?s)"
    by (rule search_ok) (simp add: env_polling_def)
  note m = poll_outcomes [THEN conjunct2, THEN conjunct1, THEN mp, OF conjI [OF a conjI [OF s p]]]
  have q0: "quiet_until ?f 0" by (simp add: quiet_until_def)
  have t: "py_truthy (JArr sample_partition_info)" by (simp add: sample_partition_info_def)
  have r: "poll_reply ?f 0 = Inr (JObj [(''partition_info'', JArr sample_partition_info)])"
    by (simp add: env_polling_def)
  have g: "py_get (JObj [(''partition_info'', JArr sample_partition_info)]) ''partition_info''
      = Inr (JArr sample_partition_info)"
    by (simp add: py_get_def)
  have z: "(0::nat) < 60" by simp
  have f: "poll_stage ?c ?f ?s = ([GetUrl ?url [] 30], Next [0, 2, 5])"
    using poll_outcomes [of ?f ?c ?s _ _ _ _ 0 "JObj [(''partition_info'', JArr sample_partition_info)]"
        "JArr sample_partition_info", THEN conjunct2, THEN conjunct2, THEN mp,
        OF conjI [OF z conjI [OF q0 conjI [OF r conjI [OF g t]]]]]
    by (simp add: resolve_sample quiet_polls_def split: sum.splits)
  from m have m1: "snd (main ?c ?e) = Inr (replicate 70 [])" by simp
  from m have m2: "\<not> list_ex is_page_fetch (fst (main ?c ?e))" by (rule conjunct2)
  show ?thesis
    by (intro conjI q p m1 m2 z q0 t f)
qed

lemma unconvertible_entry:
  assumes "first_present kvs partition_keys = Some v" and "py_int v = Inl e"
  shows "partition_number (JObj kvs) = Inl e"
  using assms by (simp add: partition_number_def partition_value_first)

lemma resolve_raises:
  assumes "p \<in> set es" and "partition_number p = Inl e"
  shows "\<exists>e'. resolve_partitions (JArr es) = Inl e'"
proof -
  from map_raise_Inl [of p es partition_number e, OF assms] obtain e' where "map_raise partition_number es = Inl e'"
    by blast
  then show ?thesis by (simp add: resolve_partitions_def)
qed

section \<open>Entries that cannot be converted\<close>

text \<open>
  C9, as the claim states it, fails: the entry \<open>mixed_entry\<close> carries the key \<^verbatim>\<open>page\<close>
  with the value null, which \<^verbatim>\<open>int()\<close> refuses, but \<^verbatim>\<open>partition_num\<close> comes first and is
  read; the resolution does not raise and polling succeeds with partition 1.
\<close>

theorem later_key_is_not_read:
  "map_of mixed_entry ''page'' = Some JNull
   \<and> py_int JNull = Inl TypeError
   \<and> resolve_partitions (JArr [JObj mixed_entry]) = Inr [1]
   \<and> poll_stage (source_config [] []) (env_polling (JArr [JObj mixed_entry])) (JStr ''s1'') =
       ([GetUrl (poll_url (source_config [] []) (JStr ''s1'')) [] 30], Next [1])"
proof -
  have r: "resolve_partitions (JArr [JObj mixed_entry]) = Inr [1]"
    by (simp add: resolve_partitions_def mixed_entry_def partition_number_def
        partition_value_def sorted_set_def)
  have t: "py_truthy (JArr [JObj mixed_entry])" by simp
  show ?thesis
    using poll_first_attempt [OF t, of "source_config [] []" "JStr ''s1''"] r
    by (simp add: mixed_entry_def)
qed

text \<open>
  C9, amended. If for some keyed entry of \<^verbatim>\<open>partition_info\<close> the first present of the keys
  \<^verbatim>\<open>partition_num\<close>, \<^verbatim>\<open>partition\<close>, \<^verbatim>\<open>page\<close>, \<^verbatim>\<open>number\<close>, in this order, has a value that
  \<^verbatim>\<open>int()\<close> refuses (null, or a text that is not a number), the resolution raises; the
  polling stage that observes this \<^verbatim>\<open>partition_info\<close> fails through the error path and the
  run returns the empty table. The entry is not given the partition 0.
\<close>

theorem unconvertible_partition_raises:
  assumes "JObj kvs \<in> set es"
    and "first_present kvs partition_keys = Some v"
    and "py_int v = Inl e"
  shows "(\<exists>e'. resolve_partitions (JArr es) = Inl e')
    \<and> (k < 60 \<and> quiet_until env k \<and> poll_reply env k = Inr j
         \<and> py_get j ''partition_info'' = Inr (JArr es) \<longrightarrow>
       poll_stage cfg env sid =
         (quiet_polls (poll_url cfg sid) k
            @ [GetUrl (poll_url cfg sid) [] 30, LogError ''Polling error: ''], Stop)
       \<and> (auth_stage cfg env = (ev1, Next tok) \<and> search_stage cfg env = (ev2, Next sid) \<longrightarrow>
            snd (main cfg env) = Inr (replicate 70 [])))
    \<and> py_int JNull = Inl TypeError
    \<and> py_int (JStr ''abc'') = Inl ValueError"
proof -
  have raises: "\<exists>e'. resolve_partitions (JArr es) = Inl e'"
    by (rule resolve_raises [OF assms(1) unconvertible_entry [OF assms(2,3)]])
  have t: "py_truthy (JArr es)" using assms(1) by auto
  have poll: "poll_stage cfg env sid =
         (quiet_polls (poll_url cfg sid) k
            @ [GetUrl (poll_url cfg sid) [] 30, LogError ''Polling error: ''], Stop)"
    if h: "k < 60 \<and> quiet_until env k \<and> poll_reply env k = Inr j
         \<and> py_get j ''partition_info'' = Inr (JArr es)"
  proof -
    from h have "poll_stage cfg env sid =
     (case resolve_partitions (JArr es) of
        Inl e \<Rightarrow> (quiet_polls (poll_url cfg sid) k
                   @ [GetUrl (poll_url cfg sid) [] 30, LogError ''Polling error: ''], Stop)
      | Inr parts \<Rightarrow> (quiet_polls (poll_url cfg sid) k @ [GetUrl (poll_url cfg sid) [] 30],
                      Next parts))"
      using poll_stage_found [of k env j "JArr es" cfg sid] t by blast
    with raises show ?thesis by auto
  qed
  have run: "snd (main cfg env) = Inr (replicate 70 [])"
    if "poll_stage cfg env sid =
         (quiet_polls (poll_url cfg sid) k
            @ [GetUrl (poll_url cfg sid) [] 30, LogError ''Polling error: ''], Stop)"
      and "auth_stage cfg env = (ev1, Next tok) \<and> search_stage cfg env = (ev2, Next sid)"
    using that main_poll_stop [of cfg env ev1 tok ev2 sid] by auto
  have i1: "py_int JNull = Inl TypeError" by simp
  have i2: "py_int (JStr ''abc'') = Inl ValueError"
    by (simp add: py_int_str_def int_strip_def int_isspace_def parse_digits_def is_ascii_digit_def)
  show ?thesis
    using raises poll run i1 i2 by blast
qed

theorem unconvertible_partition_raises_witness:
  "JObj null_entry \<in> set [JInt 3, JObj null_entry]
   \<and> first_present null_entry partition_keys = Some JNull
   \<and> py_int JNull = Inl TypeError
   \<and> (\<exists>e'. resolve_partitions (JArr [JInt 3, JObj null_entry]) = Inl e')
   \<and> poll_stage (source_config [] []) (env_polling (JArr [JInt 3, JObj null_entry])) (JStr ''s1'') =
       ([GetUrl (poll_url (source_config [] []) (JStr ''s1'')) [] 30,
         LogError ''Polling error: ''], Stop)
   \<and> snd (main (source_config [] []) (env_polling (JArr [JInt 3, JObj null_entry])))
       = Inr (replicate 70 [])"
proof -
  let ?es = "[JInt 3, JObj null_entry]"
  let ?c = "source_config [] []" and ?s = "JStr ''s1''" and ?e = "env_polling (JArr ?es)"
  have m: "JObj null_entry \<in> set ?es" by simp
  have f: "first_present null_entry partition_keys = Some JNull"
    by (simp add: null_entry_def partition_keys_def)
  have i: "py_int JNull = Inl TypeError" by simp
  note T = unconvertible_partition_raises [OF m f i, of 0 ?e
      "JObj [(''partition_info'', JArr ?es)]" ?c ?s]
  have h: "(0::nat) < 60 \<and> quiet_until ?e 0
      \<and> poll_reply ?e 0 = Inr (JObj [(''partition_info'', JArr ?es)])
      \<and> py_get (JObj [(''partition_info'', JArr ?es)]) ''partition_info'' = Inr (JArr ?es)"
    by (simp add: quiet_until_def env_polling_def py_get_def)
  have a: "auth_stage ?c ?e = ([LogInfo ''Logging in for token'',
       PostForm ''https://data-reporting-api.prod.feverup.com/v1/auth/token''
         [(''username'', []), (''password'', [])] 30], Next (JStr ''t''))"
    by (rule auth_ok) (simp add: env_polling_def)
  have s: "search_stage ?c ?e =
     ([PostJson ''https://data-reporting-api.prod.feverup.com/v1/reports/order-items/search''
         (JObj [(''plan_ids'', JArr [JInt 420002, JInt 474974, JInt 416569, JInt 480359,
                                     JInt 474902, JInt 433336])]) 60,
       LogInfo ''Search ID: s1''], Next ?s)"
    by (rule search_ok) (simp add: env_polling_def)
  from T have r1: "\<exists>e'. resolve_partitions (JArr ?es) = Inl e'" by (rule conjunct1)
  note P = T [THEN conjunct2, THEN conjunct1, THEN mp, OF h]
  from P have r2: "poll_stage ?c ?e ?s =
       ([GetUrl (poll_url ?c ?s) [] 30, LogError ''Polling error: ''], Stop)"
    by (simp add: quiet_polls_def)
  have r3: "snd (main ?c ?e) = Inr (replicate 70 [])"
    by (rule P [THEN conjunct2, THEN mp, OF conjI [OF a s]])
  show ?thesis
    by (intro conjI m f i r1 r2 r3)
qed

section \<open>Runs that stop\<close>

lemma guarded_raise: "snd r = Inl e \<Longrightarrow> snd (guarded msg r) = Stop"
  by (simp add: guarded_def)

text \<open>
  C7, as the claim states it, fails on the number of columns: a run that stops at the
  token request returns a table of 70 empty columns, and no table of 69.
\<close>

theorem stopped_run_has_70_columns:
  "snd (auth_stage (source_config [] []) env_auth_down) = Stop
   \<and> snd (main (source_config [] []) env_auth_down) = Inr (replicate 70 [])
   \<and> \<not> (\<exists>tbl. snd (main (source_config [] []) env_auth_down) = Inr tbl \<and> length tbl = 69)"
proof -
  have a: "auth_stage (source_config [] []) env_auth_down =
      ([LogInfo ''Logging in for token'',
        PostForm ''https://data-reporting-api.prod.feverup.com/v1/auth/token''
          [(''username'', []), (''password'', [])] 30,
        LogError ''Auth error: ''], Stop)"
    by (simp add: auth_stage_def auth_body_def guarded_def source_fields env_auth_down_def
        env_polling_def py_strip_def auth_url_def)
  from main_auth_stop [OF a] a show ?thesis by simp
qed

text \<open>
  C7, amended. \<^verbatim>\<open>main\<close> always returns a table of the 70 named columns and no exception
  escapes it. An exception in the body of a stage makes the stage stop, and whenever the
  run stops at a stage (token request, start of the search, polling, fetching), the
  table returned has all 70 columns, each with no row.
\<close>

theorem stopped_run_returns_empty_table:
  "(\<exists>tbl. snd (main cfg env) = Inr tbl \<and> length tbl = 70)
   \<and> length variable_names = 70
   \<and> (auth_stage cfg env = (ev1, Stop) \<longrightarrow> main cfg env = (ev1, Inr (replicate 70 [])))
   \<and> (auth_stage cfg env = (ev1, Next tok) \<and> search_stage cfg env = (ev2, Stop) \<longrightarrow>
        main cfg env = (ev1 @ ev2, Inr (replicate 70 [])))
   \<and> (auth_stage cfg env = (ev1, Next tok) \<and> search_stage cfg env = (ev2, Next sid)
        \<and> poll_stage cfg env sid = (ev3, Stop) \<longrightarrow>
        main cfg env = (ev1 @ ev2 @ ev3, Inr (replicate 70 [])))
   \<and> (auth_stage cfg env = (ev1, Next tok) \<and> search_stage cfg env = (ev2, Next sid)
        \<and> poll_stage cfg env sid = (ev3, Next parts)
        \<and> fetch_stage cfg env sid parts = (ev4, Stop) \<longrightarrow>
        main cfg env = (ev1 @ ev2 @ ev3 @ ev4, Inr (replicate 70 [])))
   \<and> (snd (auth_body cfg env) = Inl e \<longrightarrow> snd (auth_stage cfg env) = Stop)
   \<and> (snd (search_try cfg env) = Inl e \<longrightarrow> snd (search_stage cfg env) = Stop)
   \<and> (snd (poll_try cfg env sid) = Inl e \<longrightarrow> snd (poll_stage cfg env sid) = Stop)
   \<and> (snd (fetch_try cfg env sid parts) = Inl e \<longrightarrow> snd (fetch_stage cfg env sid parts) = Stop)"
proof (intro conjI impI)
  show "\<exists>tbl. snd (main cfg env) = Inr tbl \<and> length tbl = 70" by (rule main_total)
  show "length variable_names = 70" by (rule length_variable_names)
next
  assume "auth_stage cfg env = (ev1, Stop)"
  then show "main cfg env = (ev1, Inr (replicate 70 []))" by (rule main_auth_stop)
next
  assume "auth_stage cfg env = (ev1, Next tok) \<and> search_stage cfg env = (ev2, Stop)"
  then show "main cfg env = (ev1 @ ev2, Inr (replicate 70 []))"
    using main_search_stop by blast
next
  assume "auth_stage cfg env = (ev1, Next tok) \<and> search_stage cfg env = (ev2, Next sid)
        \<and> poll_stage cfg env sid = (ev3, Stop)"
  then show "main cfg env = (ev1 @ ev2 @ ev3, Inr (replicate 70 []))"
    using main_poll_stop by blast
next
  assume "auth_stage cfg env = (ev1, Next tok) \<and> search_stage cfg env = (ev2, Next sid)
        \<and> poll_stage cfg env sid = (ev3, Next parts)
        \<and> fetch_stage cfg env sid parts = (ev4, Stop)"
  then show "main cfg env = (ev1 @ ev2 @ ev3 @ ev4, Inr (replicate 70 []))"
    using main_fetch_stop by blast
next
  assume "snd (auth_body cfg env) = Inl e"
  then show "snd (auth_stage cfg env) = Stop"
    unfolding auth_stage_def by (rule guarded_raise)
next
  assume "snd (search_try cfg env) = Inl e"
  then show "snd (search_stage cfg env) = Stop"
    unfolding search_stage_def by (rule guarded_raise)
next
  assume "snd (poll_try cfg env sid) = Inl e"
  then show "snd (poll_stage cfg env sid) = Stop"
    unfolding poll_stage_def by (rule guarded_raise)
next
  assume "snd (fetch_try cfg env sid parts) = Inl e"
  then show "snd (fetch_stage cfg env sid parts) = Stop"
    unfolding fetch_stage_def by (rule guarded_raise)
qed

theorem stopped_run_returns_empty_table_witness:
  "snd (auth_stage (source_config [] []) env_auth_down) = Stop
   \<and> snd (main (source_config [] []) env_auth_down) = Inr (replicate 70 [])
   \<and> snd (search_stage (source_config [] []) env_search_down) = Stop
   \<and> snd (main (source_config [] []) env_search_down) = Inr (replicate 70 [])
   \<and> snd (poll_stage (source_config [] []) (env_polling JNull) (JStr ''s1'')) = Stop
   \<and> snd (main (source_config [] []) (env_polling JNull)) = Inr (replicate 70 [])
   \<and> snd (fetch_stage (source_config [] []) env_fetch_down (JStr ''s1'') [0]) = Stop
   \<and> snd (main (source_config [] []) env_fetch_down) = Inr (replicate 70 [])"
proof -
  let ?c = "source_config [] []" and ?s = "JStr ''s1''"
  let ?A = "[LogInfo ''Logging in for token'',
       PostForm ''https://data-reporting-api.prod.feverup.com/v1/auth/token''
         [(''username'', []), (''password'', [])] 30]"
  let ?S = "[PostJson ''https://data-reporting-api.prod.feverup.com/v1/reports/order-items/search''
         (JObj [(''plan_ids'', JArr [JInt 420002, JInt 474974, JInt 416569, JInt 480359,
                                     JInt 474902, JInt 433336])]) 60,
       LogInfo ''Search ID: s1'']"
  \<comment> \<open>the token request fails\<close>
  have a1: "auth_stage ?c env_auth_down = (?A @ [LogError ''Auth error: ''], Stop)"
    by (simp add: auth_stage_def auth_body_def guarded_def source_fields env_auth_down_def
        env_polling_def py_strip_def auth_url_def)
  note m1 = stopped_run_returns_empty_table [of ?c env_auth_down "?A @ [LogError ''Auth error: '']",
      THEN conjunct2, THEN conjunct2, THEN conjunct1, THEN mp, OF a1]
  \<comment> \<open>the search request fails\<close>
  have a2: "auth_stage ?c env_search_down = (?A, Next (JStr ''t''))"
    by (rule auth_ok) (simp add: env_search_down_def env_polling_def)
  have s2: "search_stage ?c env_search_down =
      ([PostJson ''https://data-reporting-api.prod.feverup.com/v1/reports/order-items/search''
         (JObj [(''plan_ids'', JArr [JInt 420002, JInt 474974, JInt 416569, JInt 480359,
                                     JInt 474902, JInt 433336])]) 60,
        LogError ''Search init error: ''], Stop)"
    by (simp add: search_stage_def search_try_def guarded_def parse_source search_body_def
        search_url_def source_fields env_search_down_def env_polling_def)
  note m2 = stopped_run_returns_empty_table [of ?c env_search_down _ "JStr ''t''",
      THEN conjunct2, THEN conjunct2, THEN conjunct2, THEN conjunct1, THEN mp,
      OF conjI [OF a2 s2]]
  \<comment> \<open>polling runs out\<close>
  have a3: "auth_stage ?c (env_polling JNull) = (?A, Next (JStr ''t''))"
    by (rule auth_ok) (simp add: env_polling_def)
  have s3: "search_stage ?c (env_polling JNull) = (?S, Next ?s)"
    by (rule search_ok) (simp add: env_polling_def)
  have p3: "poll_stage ?c (env_polling JNull) ?s =
      (quiet_polls (poll_url ?c ?s) 60 @ [LogError ''Timeout waiting for results''], Stop)"
    by (rule poll_stage_timeout) (simp add: quiet_polling)
  note m3 = stopped_run_returns_empty_table [of ?c "env_polling JNull" _ "JStr ''t''" _ ?s,
      THEN conjunct2, THEN conjunct2, THEN conjunct2, THEN conjunct2, THEN conjunct1, THEN mp,
      OF conjI [OF a3 conjI [OF s3 p3]]]
  \<comment> \<open>the request for partition 0 fails\<close>
  have a4: "auth_stage ?c env_fetch_down = (?A, Next (JStr ''t''))"
    by (rule auth_ok) (simp add: env_fetch_down_def env_polling_def)
  have s4: "search_stage ?c env_fetch_down = (?S, Next ?s)"
    by (rule search_ok) (simp add: env_fetch_down_def env_polling_def)
  have r4: "resolve_partitions (JArr [JInt 0]) = Inr [0]"
    by (simp add: resolve_partitions_def partition_number_def sorted_set_def)
  have p4: "poll_stage ?c env_fetch_down ?s = ([GetUrl (poll_url ?c ?s) [] 30], Next [0])"
    using poll_stage_found [of 0 env_fetch_down "JObj [(''partition_info'', JArr [JInt 0])]"
        "JArr [JInt 0]" ?c ?s]
    by (simp add: quiet_until_def env_fetch_down_def env_polling_def py_get_def r4 quiet_polls_def)
  have f4: "fetch_stage ?c env_fetch_down ?s [0] =
      ([GetUrl (poll_url ?c ?s) [(''page'', JInt 0)] 60, LogError ''Partition fetch error: ''], Stop)"
    by (simp add: fetch_stage_def fetch_try_def guarded_def env_fetch_down_def env_polling_def)
  note m4 = stopped_run_returns_empty_table [of ?c env_fetch_down _ "JStr ''t''" _ ?s _ "[0]",
      THEN conjunct2, THEN conjunct2, THEN conjunct2, THEN conjunct2, THEN conjunct2,
      THEN conjunct1, THEN mp, OF conjI [OF a4 conjI [OF s4 conjI [OF p4 f4]]]]
  show ?thesis
    using a1 m1 s2 m2 p3 m3 f4 m4 by simp
qed

section \<open>The start of the search\<close>

lemma split_chars: "w \<in> set (py_split sep s) \<Longrightarrow> set w \<subseteq> set s"
proof (induction s arbitrary: w)
  case Nil
  then show ?case by simp
next
  case (Cons c cs)
  show ?case
  proof (cases "c = sep")
    case True
    with Cons show ?thesis by auto
  next
    case False
    obtain v vs where sp: "py_split sep cs = v # vs"
      by (cases "py_split sep cs") (cases cs; simp split: if_splits list.splits)+
    with False Cons.prems have "w = c # v \<or> w \<in> set vs" by simp
    then show ?thesis
    proof
      assume "w = c # v"
      moreover have "set v \<subseteq> set cs" using Cons.IH [of v] sp by simp
      ultimately show ?thesis by auto
    next
      assume "w \<in> set vs"
      then have "set w \<subseteq> set cs" using Cons.IH [of w] sp by simp
      then show ?thesis by auto
    qed
  qed
qed

lemma strip_chars: "set (py_strip s) \<subseteq> set s"
proof
  fix c assume "c \<in> set (py_strip s)"
  then have "c \<in> set (dropWhile py_isspace (rev (dropWhile py_isspace s)))"
    by (simp add: py_strip_def)
  then have "c \<in> set (rev (dropWhile py_isspace s))" by (rule set_dropWhileD)
  then have "c \<in> set (dropWhile py_isspace s)" by simp
  then show "c \<in> set s" by (rule set_dropWhileD)
qed

lemma plain_digit_char: "plain_char c \<Longrightarrow> py_isdigit_char c \<Longrightarrow> is_ascii_digit c"
  by (auto simp: py_isdigit_char_def plain_char_def)

lemma plain_space: "plain_char c \<Longrightarrow> int_isspace c = py_isspace c"
  by (auto simp: plain_char_def int_isspace_def py_isspace_def Let_def)

lemma dropWhile_same: "(\<And>x. x \<in> set xs \<Longrightarrow> P x = Q x) \<Longrightarrow> dropWhile P xs = dropWhile Q xs"
  by (induction xs) auto

lemma plain_strip:
  assumes "list_all plain_char s"
  shows "int_strip s = py_strip s"
proof -
  have 1: "dropWhile int_isspace s = dropWhile py_isspace s"
    using assms by (intro dropWhile_same plain_space) (simp add: list_all_iff)
  have "set (rev (dropWhile py_isspace s)) \<subseteq> set s"
    by (auto dest: set_dropWhileD)
  then have "dropWhile int_isspace (rev (dropWhile py_isspace s))
      = dropWhile py_isspace (rev (dropWhile py_isspace s))"
    using assms by (intro dropWhile_same plain_space) (auto simp: list_all_iff)
  then show ?thesis by (simp add: int_strip_def py_strip_def 1)
qed

lemma digits_acc_digits: "list_all is_ascii_digit cs \<Longrightarrow> \<exists>n. digits_acc a cs = Some n"
  by (induction a cs rule: digits_acc.induct) auto

lemma digit_not_sign: "is_ascii_digit c \<Longrightarrow> c \<noteq> CHR ''-'' \<and> c \<noteq> CHR ''+''"
  by (auto simp: is_ascii_digit_def)

lemma int_of_digit_text:
  assumes ne: "int_strip x \<noteq> []" and dg: "list_all is_ascii_digit (int_strip x)"
  shows "\<exists>n. py_int_str x = Inr n"
proof -
  obtain c cs where t: "int_strip x = c # cs" using ne by (cases "int_strip x") auto
  with dg have c: "is_ascii_digit c" and cs: "list_all is_ascii_digit cs" by simp_all
  from digits_acc_digits [OF cs] obtain n where "digits_acc (digit_val c) cs = Some n" by blast
  then have "parse_digits (c # cs) = Some n" using c by (simp add: parse_digits_def)
  then show ?thesis
    using digit_not_sign [OF c] by (simp add: py_int_str_def t Let_def)
qed

lemma map_raise_all:
  "(\<And>x. x \<in> set xs \<Longrightarrow> \<exists>y. f x = Inr y) \<Longrightarrow> \<exists>ys. map_raise f xs = Inr ys"
proof (induction xs)
  case Nil
  show ?case by simp
next
  case (Cons x xs)
  then obtain y where "f x = Inr y" by (meson list.set_intros(1))
  moreover from Cons obtain ys where "map_raise f xs = Inr ys" by (meson list.set_intros(2))
  ultimately show ?case by simp
qed

lemma map_raise_map: "map_raise f xs = Inr ys \<Longrightarrow> map f xs = map Inr ys"
  by (induction xs arbitrary: ys) (auto split: sum.splits)

lemma plain_plan_ids_parse:
  assumes "plain_ascii (plan_ids cfg)"
  shows "\<exists>ids. parse_plan_ids cfg = Inr ids"
  unfolding parse_plan_ids_def
proof (rule map_raise_all)
  fix x assume "x \<in> set (kept_plan_ids cfg)"
  then have x: "x \<in> set (py_split CHR '','' (plan_ids cfg))" and d: "py_isdigit (py_strip x)"
    by (simp_all add: kept_plan_ids_def)
  have px: "list_all plain_char x"
    using split_chars [OF x] assms by (auto simp: plain_ascii_def list_all_iff)
  then have st: "int_strip x = py_strip x" by (rule plain_strip)
  have "\<forall>c \<in> set (py_strip x). plain_char c"
    using strip_chars [of x] px by (auto simp: list_all_iff)
  with d have "list_all is_ascii_digit (py_strip x)"
    by (auto simp: py_isdigit_def list_all_iff intro: plain_digit_char)
  moreover from d have "py_strip x \<noteq> []" by (simp add: py_isdigit_def)
  ultimately show "\<exists>y. py_int_str x = Inr y"
    using int_of_digit_text [of x] st by simp
qed

lemma search_body_keys:
  "\<exists>kvs. search_body cfg ids = JObj kvs
     \<and> map_of kvs ''plan_ids'' = Some (JArr (map JInt ids))
     \<and> map_of kvs ''date_field'' =
         (if date_field cfg = [] then None else Some (JStr (date_field cfg)))
     \<and> map_of kvs ''date_from'' =
         (if date_from cfg = [] then None else Some (JStr (date_from cfg)))
     \<and> map_of kvs ''date_to'' =
         (if date_to cfg = [] then None else Some (JStr (date_to cfg)))
     \<and> set (map fst kvs) \<subseteq> {''plan_ids'', ''date_field'', ''date_from'', ''date_to''}"
  by (simp add: search_body_def)

lemma search_stage_no_ids:
  assumes "parse_plan_ids cfg = Inr []"
  shows "search_stage cfg env = ([LogError ''No valid plan IDs after parsing''], Stop)"
  by (simp add: search_stage_def search_try_def guarded_def assms)

lemma search_stage_posts:
  assumes "parse_plan_ids cfg = Inr ids" and "ids \<noteq> []"
  shows "hd (fst (search_stage cfg env)) = PostJson (search_url cfg) (search_body cfg ids) 60"
    and "LogError ''No valid plan IDs after parsing'' \<notin> set (fst (search_stage cfg env))"
  using assms
  by (auto simp: search_stage_def search_try_def guarded_def Let_def split: sum.splits)

lemma search_stage_no_search_id:
  assumes "parse_plan_ids cfg = Inr ids" and "ids \<noteq> []"
    and "search_reply env = Inr r" and "py_get r ''search_id'' = Inr sid" and "\<not> py_truthy sid"
  shows "search_stage cfg env =
     ([PostJson (search_url cfg) (search_body cfg ids) 60,
       LogError ''No search_id in response''], Stop)"
  using assms by (simp add: search_stage_def search_try_def guarded_def Let_def)

text \<open>
  C8. For a text of plan identifiers in ASCII without the separator controls: the
  entries between the commas whose stripped text is not made of digits are dropped, and
  \<^verbatim>\<open>int()\<close> accepts every entry that is kept. The stage fails with the message about valid plan identifiers exactly when no
  entry is kept. Otherwise its first act is to post the JSON body, which holds
  \<^verbatim>\<open>plan_ids\<close> and each of \<^verbatim>\<open>date_field\<close>, \<^verbatim>\<open>date_from\<close>, \<^verbatim>\<open>date_to\<close> only when its value
  is not empty, and it fails when the reply has no \<^verbatim>\<open>search_id\<close>.
\<close>

theorem submit_stage:
  assumes "plain_ascii (plan_ids cfg)"
  shows "\<exists>ids. parse_plan_ids cfg = Inr ids
     \<and> map py_int_str (kept_plan_ids cfg) = map Inr ids
     \<and> (kept_plan_ids cfg = [] \<longrightarrow>
          search_stage cfg env = ([LogError ''No valid plan IDs after parsing''], Stop))
     \<and> ((LogError ''No valid plan IDs after parsing'' \<in> set (fst (search_stage cfg env)))
          = (kept_plan_ids cfg = []))
     \<and> (kept_plan_ids cfg \<noteq> [] \<longrightarrow>
          hd (fst (search_stage cfg env)) = PostJson (search_url cfg) (search_body cfg ids) 60
          \<and> (\<exists>kvs. search_body cfg ids = JObj kvs
                \<and> map_of kvs ''plan_ids'' = Some (JArr (map JInt ids))
                \<and> map_of kvs ''date_field'' =
                    (if date_field cfg = [] then None else Some (JStr (date_field cfg)))
                \<and> map_of kvs ''date_from'' =
                    (if date_from cfg = [] then None else Some (JStr (date_from cfg)))
                \<and> map_of kvs ''date_to'' =
                    (if date_to cfg = [] then None else Some (JStr (date_to cfg)))
                \<and> set (map fst kvs) \<subseteq> {''plan_ids'', ''date_field'', ''date_from'', ''date_to''})
          \<and> (search_reply env = Inr r \<and> py_get r ''search_id'' = Inr sid \<and> \<not> py_truthy sid \<longrightarrow>
                search_stage cfg env =
                  ([PostJson (search_url cfg) (search_body cfg ids) 60,
                    LogError ''No search_id in response''], Stop))
          \<and> (search_reply env = Inr (JObj rkvs) \<and> map_of rkvs ''search_id'' = None \<longrightarrow>
                search_stage cfg env =
                  ([PostJson (search_url cfg) (search_body cfg ids) 60,
                    LogError ''No search_id in response''], Stop)))"
proof -
  from plain_plan_ids_parse [OF assms] obtain ids where p: "parse_plan_ids cfg = Inr ids"
    by blast
  then have m: "map py_int_str (kept_plan_ids cfg) = map Inr ids"
    unfolding parse_plan_ids_def by (rule map_raise_map)
  then have len: "length (kept_plan_ids cfg) = length ids"
    by (metis length_map)
  have none: "search_stage cfg env = ([LogError ''No valid plan IDs after parsing''], Stop)"
    if "kept_plan_ids cfg = []"
  proof -
    from that len have "ids = []" by simp
    with p show ?thesis using search_stage_no_ids by blast
  qed
  have some: "ids \<noteq> []" if "kept_plan_ids cfg \<noteq> []"
    using that len by auto
  have iff: "(LogError ''No valid plan IDs after parsing'' \<in> set (fst (search_stage cfg env)))
          = (kept_plan_ids cfg = [])"
  proof (cases "kept_plan_ids cfg = []")
    case True
    with none show ?thesis by simp
  next
    case False
    with search_stage_posts(2) [OF p some [OF False], of env] show ?thesis by simp
  qed
  have missing: "search_stage cfg env =
        ([PostJson (search_url cfg) (search_body cfg ids) 60,
          LogError ''No search_id in response''], Stop)"
    if "kept_plan_ids cfg \<noteq> []"
      and "search_reply env = Inr (JObj rkvs) \<and> map_of rkvs ''search_id'' = None"
  proof (rule search_stage_no_search_id [OF p some [OF that(1)]])
    show "search_reply env = Inr (JObj rkvs)" using that(2) by simp
    show "py_get (JObj rkvs) ''search_id'' = Inr JNull"
      using that(2) by (simp add: py_get_def)
    show "\<not> py_truthy JNull" by simp
  qed
  have falsy: "search_stage cfg env =
        ([PostJson (search_url cfg) (search_body cfg ids) 60,
          LogError ''No search_id in response''], Stop)"
    if "kept_plan_ids cfg \<noteq> []"
      and "search_reply env = Inr r \<and> py_get r ''search_id'' = Inr sid \<and> \<not> py_truthy sid"
    using search_stage_no_search_id [OF p some [OF that(1)], of env r sid] that(2) by blast
  show ?thesis
  proof (intro exI [of _ ids] conjI impI)
    show "parse_plan_ids cfg = Inr ids" by (rule p)
    show "map py_int_str (kept_plan_ids cfg) = map Inr ids" by (rule m)
    show "(LogError ''No valid plan IDs after parsing'' \<in> set (fst (search_stage cfg env)))
          = (kept_plan_ids cfg = [])" by (rule iff)
  next
    assume "kept_plan_ids cfg = []"
    then show "search_stage cfg env = ([LogError ''No valid plan IDs after parsing''], Stop)"
      by (rule none)
  next
    assume "kept_plan_ids cfg \<noteq> []"
    then show "hd (fst (search_stage cfg env)) = PostJson (search_url cfg) (search_body cfg ids) 60"
      using search_stage_posts(1) [OF p] some by blast
  next
    show "\<exists>kvs. search_body cfg ids = JObj kvs
                \<and> map_of kvs ''plan_ids'' = Some (JArr (map JInt ids))
                \<and> map_of kvs ''date_field'' =
                    (if date_field cfg = [] then None else Some (JStr (date_field cfg)))
                \<and> map_of kvs ''date_from'' =
                    (if date_from cfg = [] then None else Some (JStr (date_from cfg)))
                \<and> map_of kvs ''date_to'' =
                    (if date_to cfg = [] then None else Some (JStr (date_to cfg)))
                \<and> set (map fst kvs) \<subseteq> {''plan_ids'', ''date_field'', ''date_from'', ''date_to''}"
      by (rule search_body_keys)
  next
    assume "kept_plan_ids cfg \<noteq> []"
      and "search_reply env = Inr r \<and> py_get r ''search_id'' = Inr sid \<and> \<not> py_truthy sid"
    then show "search_stage cfg env =
                  ([PostJson (search_url cfg) (search_body cfg ids) 60,
                    LogError ''No search_id in response''], Stop)"
      by (rule falsy)
  next
    assume "kept_plan_ids cfg \<noteq> []"
      and "search_reply env = Inr (JObj rkvs) \<and> map_of rkvs ''search_id'' = None"
    then show "search_stage cfg env =
                  ([PostJson (search_url cfg) (search_body cfg ids) 60,
                    LogError ''No search_id in response''], Stop)"
      by (rule missing)
  qed
qed

theorem submit_stage_witness:
  "plain_ascii (plan_ids (source_config [] []))
   \<and> kept_plan_ids (source_config [] []) =
       [''420002'', ''474974'', ''416569'', ''480359'', ''474902'', ''433336'']
   \<and> search_stage (source_config [] []) env_no_search_id =
       ([PostJson ''https://data-reporting-api.prod.feverup.com/v1/reports/order-items/search''
           (JObj [(''plan_ids'', JArr [JInt 420002, JInt 474974, JInt 416569, JInt 480359,
                                       JInt 474902, JInt 433336])]) 60,
         LogError ''No search_id in response''], Stop)
   \<and> plain_ascii (plan_ids config_no_ids)
   \<and> kept_plan_ids config_no_ids = []
   \<and> search_stage config_no_ids env_no_search_id =
       ([LogError ''No valid plan IDs after parsing''], Stop)
   \<and> plain_ascii (plan_ids config_dates)
   \<and> kept_plan_ids config_dates \<noteq> []
   \<and> (\<exists>ids kvs. search_body config_dates ids = JObj kvs
         \<and> map_of kvs ''date_field'' = Some (JStr ''CREATED_DATE_UTC'')
         \<and> map_of kvs ''date_from'' = Some (JStr ''2024-01-01'')
         \<and> map_of kvs ''date_to'' = None)"
proof -
  let ?c = "source_config [] []"
  have asc: "plain_ascii (plan_ids ?c)"
    by (simp add: plain_ascii_def plain_char_def source_config_def)
  have kept: "kept_plan_ids ?c = [''420002'', ''474974'', ''416569'', ''480359'', ''474902'', ''433336'']"
    by (rule kept_source)
  have reply: "search_reply env_no_search_id = Inr (JObj []) \<and> map_of [] ''search_id'' = (None :: json option)"
    by (simp add: env_no_search_id_def)
  have ne: "kept_plan_ids ?c \<noteq> []" by (simp add: kept)
  have "\<exists>ids. parse_plan_ids ?c = Inr ids
      \<and> search_stage ?c env_no_search_id =
          ([PostJson (search_url ?c) (search_body ?c ids) 60,
            LogError ''No search_id in response''], Stop)"
    using submit_stage [OF asc, of env_no_search_id JNull JNull "[]"] ne reply by blast
  then obtain ids where p: "parse_plan_ids ?c = Inr ids"
    and s: "search_stage ?c env_no_search_id =
          ([PostJson (search_url ?c) (search_body ?c ids) 60,
            LogError ''No search_id in response''], Stop)"
    by blast
  from p have ids: "ids = [420002, 474974, 416569, 480359, 474902, 433336]"
    by (simp add: parse_source)
  from s
  have r1: "search_stage ?c env_no_search_id =
       ([PostJson ''https://data-reporting-api.prod.feverup.com/v1/reports/order-items/search''
           (JObj [(''plan_ids'', JArr [JInt 420002, JInt 474974, JInt 416569, JInt 480359,
                                       JInt 474902, JInt 433336])]) 60,
         LogError ''No search_id in response''], Stop)"
    by (simp add: ids search_url_def search_body_def source_fields)
  have asc2: "plain_ascii (plan_ids config_no_ids)"
    by (simp add: plain_ascii_def plain_char_def config_no_ids_def source_config_def)
  have kept2: "kept_plan_ids config_no_ids = []"
    by (simp add: kept_plan_ids_def config_no_ids_def source_config_def py_isdigit_def
        py_isdigit_char_def is_ascii_digit_def py_strip_def py_isspace_def)
  from submit_stage [OF asc2, of env_no_search_id] kept2
  have r2: "search_stage config_no_ids env_no_search_id =
       ([LogError ''No valid plan IDs after parsing''], Stop)"
    by blast
  have asc3: "plain_ascii (plan_ids config_dates)"
    by (simp add: plain_ascii_def plain_char_def config_dates_def source_config_def)
  have "kept_plan_ids config_dates = kept_plan_ids ?c"
    by (simp add: kept_plan_ids_def config_dates_def source_config_def)
  then have kept3: "kept_plan_ids config_dates \<noteq> []" by (simp add: kept)
  have "\<exists>ids kvs. search_body config_dates ids = JObj kvs
      \<and> map_of kvs ''date_field'' =
          (if date_field config_dates = [] then None else Some (JStr (date_field config_dates)))
      \<and> map_of kvs ''date_from'' =
          (if date_from config_dates = [] then None else Some (JStr (date_from config_dates)))
      \<and> map_of kvs ''date_to'' =
          (if date_to config_dates = [] then None else Some (JStr (date_to config_dates)))"
    using submit_stage [OF asc3, of env_no_search_id] kept3 by blast
  then have r3: "\<exists>ids kvs. search_body config_dates ids = JObj kvs
         \<and> map_of kvs ''date_field'' = Some (JStr ''CREATED_DATE_UTC'')
         \<and> map_of kvs ''date_from'' = Some (JStr ''2024-01-01'')
         \<and> map_of kvs ''date_to'' = None"
    by (simp add: config_dates_def source_config_def)
  show ?thesis
    by (intro conjI asc kept r1 asc2 kept2 r2 asc3 kept3 r3)
qed

text \<open>
  The hypothesis on the text is needed. \<^verbatim>\<open>str.isdigit()\<close> accepts the superscript two
  (code point 0xB2) and \<^verbatim>\<open>int()\<close> refuses it; \<^verbatim>\<open>str.strip()\<close> removes the separator
  control 0x1C and \<^verbatim>\<open>int()\<close> does not skip it. With either in a kept entry the stage
  ends through its error path before any request.
\<close>

lemma superscript_two_raises:
  "search_stage ((source_config [] []) \<lparr> plan_ids := [CHR 0xB2] \<rparr>) env =
     ([LogError ''Search init error: ''], Stop)"
  by (simp add: search_stage_def search_try_def guarded_def parse_plan_ids_def
      kept_plan_ids_def source_config_def py_isdigit_def py_isdigit_char_def
      is_ascii_digit_def py_strip_def py_isspace_def py_int_str_def int_strip_def
      int_isspace_def parse_digits_def)

lemma separator_control_raises:
  "search_stage ((source_config [] []) \<lparr> plan_ids := [CHR 0x1C, CHR ''7''] \<rparr>) env =
     ([LogError ''Search init error: ''], Stop)"
  by (simp add: search_stage_def search_try_def guarded_def parse_plan_ids_def
      kept_plan_ids_def source_config_def py_isdigit_def py_isdigit_char_def
      is_ascii_digit_def py_strip_def py_isspace_def py_int_str_def int_strip_def
      int_isspace_def parse_digits_def)

end
